theory Spec2Isabelle
  imports Main "HOL-Library.Char_ord" "HOL-Library.List_Lexorder" "HOL-Library.Log_Nat"
begin

section \<open>Booking detail page: availability, selection and pricing\<close>

text \<open>
  The development embeds the pure logic of the booking detail page
  (\<^verbatim>\<open>BookingDetailPage\<close>): the availability resolver \<^verbatim>\<open>isSlotAvailable\<close>, the option
  generator \<^verbatim>\<open>generateTimeOptions\<close>, the selection updater \<^verbatim>\<open>handleHourSelection\<close>, the
  initialisation of \<^verbatim>\<open>selectedHours\<close> from the URL, the price breakdown and the
  payment-success handler.

  Modelling range. Strings are lists of 8-bit code units. Hour numbers are integers or
  NaN; JavaScript computes with them exactly below \<open>2^53\<close>, and an array holds fewer than
  \<open>2^32\<close> elements, so the embedding describes the page for hour values of that size (a day
  has 24). Prices are IEEE binary64 numbers, rounded as JavaScript rounds them.
\<close>

subsection \<open>Hour numbers: an integer or NaN\<close>

type_synonym hournum = "int option"

definition num_ge :: "hournum \<Rightarrow> hournum \<Rightarrow> bool" where
  "num_ge a b = (case (a, b) of (Some x, Some y) \<Rightarrow> x \<ge> y | _ \<Rightarrow> False)"

definition num_lt :: "hournum \<Rightarrow> hournum \<Rightarrow> bool" where
  "num_lt a b = (case (a, b) of (Some x, Some y) \<Rightarrow> x < y | _ \<Rightarrow> False)"

definition num_gt :: "hournum \<Rightarrow> hournum \<Rightarrow> bool" where
  "num_gt a b = (case (a, b) of (Some x, Some y) \<Rightarrow> x > y | _ \<Rightarrow> False)"

definition num_eq :: "hournum \<Rightarrow> hournum \<Rightarrow> bool" where
  "num_eq a b = (case (a, b) of (Some x, Some y) \<Rightarrow> x = y | _ \<Rightarrow> False)"

definition num_add :: "hournum \<Rightarrow> hournum \<Rightarrow> hournum" where
  "num_add a b = (case (a, b) of (Some x, Some y) \<Rightarrow> Some (x + y) | _ \<Rightarrow> None)"

definition num_sub :: "hournum \<Rightarrow> hournum \<Rightarrow> hournum" where
  "num_sub a b = (case (a, b) of (Some x, Some y) \<Rightarrow> Some (x - y) | _ \<Rightarrow> None)"

subsection \<open>String built-ins: split, parseInt, toString, padStart, sort\<close>

text \<open>\<^verbatim>\<open>s.split(c)\<close> for a one-character separator; the result has at least one part.\<close>

fun split :: "char \<Rightarrow> string \<Rightarrow> string list" where
  "split c [] = [[]]"
| "split c (x # xs) =
     (if x = c then [] # split c xs
      else (case split c xs of [] \<Rightarrow> [[x]] | p # ps \<Rightarrow> (x # p) # ps))"

text \<open>\<^verbatim>\<open>parts[0]\<close> of a split; \<^verbatim>\<open>parts[1]\<close> is undefined when there is one part only.\<close>

definition part0 :: "string list \<Rightarrow> string" where
  "part0 ps = (case ps of [] \<Rightarrow> [] | p # _ \<Rightarrow> p)"

definition part1 :: "string list \<Rightarrow> string option" where
  "part1 ps = (case ps of _ # p # _ \<Rightarrow> Some p | _ \<Rightarrow> None)"

definition isWhiteSpace :: "char \<Rightarrow> bool" where
  "isWhiteSpace c = (of_char c \<in> {9, 10, 11, 12, 13, 32, 160 :: nat})"

definition digitVal :: "char \<Rightarrow> nat option" where
  "digitVal c =
     (let k = (of_char c :: nat)
      in if 48 \<le> k \<and> k \<le> 57 then Some (k - 48)
         else if 97 \<le> k \<and> k \<le> 122 then Some (k - 87)
         else if 65 \<le> k \<and> k \<le> 90 then Some (k - 55)
         else None)"

definition isDigitOf :: "nat \<Rightarrow> char \<Rightarrow> bool" where
  "isDigitOf radix c = (case digitVal c of None \<Rightarrow> False | Some d \<Rightarrow> d < radix)"

definition digitsValue :: "nat \<Rightarrow> string \<Rightarrow> nat" where
  "digitsValue radix ds =
     foldl (\<lambda>acc c. acc * radix + (case digitVal c of None \<Rightarrow> 0 | Some d \<Rightarrow> d)) 0 ds"

definition stripSign :: "string \<Rightarrow> int \<times> string" where
  "stripSign s =
     (case s of
        c # r \<Rightarrow> if c = CHR ''-'' then (-1, r) else if c = CHR ''+'' then (1, r) else (1, s)
      | [] \<Rightarrow> (1, s))"

definition stripHexPrefix :: "string \<Rightarrow> nat \<times> string" where
  "stripHexPrefix s =
     (case s of
        a # b # r \<Rightarrow>
          if a = CHR ''0'' \<and> (b = CHR ''x'' \<or> b = CHR ''X'') then (16, r) else (10, s)
      | _ \<Rightarrow> (10, s))"

definition parseDigits :: "int \<Rightarrow> nat \<Rightarrow> string \<Rightarrow> hournum" where
  "parseDigits sg radix s =
     (let ds = takeWhile (isDigitOf radix) s
      in if ds = [] then None else Some (sg * int (digitsValue radix ds)))"

text \<open>\<^verbatim>\<open>parseInt(s)\<close>: leading white space, a sign, a hexadecimal prefix, then the
  longest run of digits; NaN when there is none.\<close>

definition parseInt :: "string \<Rightarrow> hournum" where
  "parseInt s =
     (case stripSign (dropWhile isWhiteSpace s) of
        (sg, s1) \<Rightarrow> (case stripHexPrefix s1 of (radix, s2) \<Rightarrow> parseDigits sg radix s2))"

text \<open>\<^verbatim>\<open>parseInt(x, 10)\<close>: the radix is given, no prefix is stripped; an undefined
  argument reads as the string \<^verbatim>\<open>undefined\<close>, which has no digit.\<close>

definition parseInt10 :: "string option \<Rightarrow> hournum" where
  "parseInt10 x =
     (case x of
        None \<Rightarrow> None
      | Some s \<Rightarrow> (case stripSign (dropWhile isWhiteSpace s) of (sg, s1) \<Rightarrow> parseDigits sg 10 s1))"

fun natToString :: "nat \<Rightarrow> string" where
  "natToString n =
     (if n < 10 then [char_of (48 + n)]
      else natToString (n div 10) @ [char_of (48 + n mod 10)])"

declare natToString.simps [simp del]

definition numToString :: "hournum \<Rightarrow> string" where
  "numToString x =
     (case x of
        None \<Rightarrow> ''NaN''
      | Some n \<Rightarrow> if n < 0 then CHR ''-'' # natToString (nat (- n)) else natToString (nat n))"

definition padStart :: "nat \<Rightarrow> char \<Rightarrow> string \<Rightarrow> string" where
  "padStart n c s = replicate (n - length s) c @ s"

text \<open>The template \<^verbatim>\<open>`${x.toString().padStart(2, '0')}:00`\<close> that labels an hour.\<close>

definition hourLabel :: "hournum \<Rightarrow> string" where
  "hourLabel x = padStart 2 (CHR ''0'') (numToString x) @ '':00''"

text \<open>\<^verbatim>\<open>Array.from({ length: n }, (_, i) => f(i))\<close>: a NaN or negative length is length 0.\<close>

definition arrayFrom :: "hournum \<Rightarrow> (nat \<Rightarrow> 'a) \<Rightarrow> 'a list" where
  "arrayFrom len f = (case len of None \<Rightarrow> [] | Some n \<Rightarrow> map f [0 ..< nat n])"

subsection \<open>Dates\<close>

text \<open>
  A \<^verbatim>\<open>Date\<close> read in local time: the number of its calendar day (days since
  1970-01-01, a Thursday) and its hour of the day. \<open>None\<close> is the invalid date, whose
  getters return NaN. The parser \<^verbatim>\<open>new Date(string)\<close> and the time zone are not part of
  the page; the page's functions take the parser as the parameter \<open>newDate\<close>.
\<close>

record LocalTime =
  dayNumber :: int
  hourOfDay :: int

type_synonym Date = "LocalTime option"

definition getDay :: "Date \<Rightarrow> hournum" where
  "getDay d = (case d of None \<Rightarrow> None | Some t \<Rightarrow> Some ((dayNumber t + 4) mod 7))"

definition getHours :: "Date \<Rightarrow> hournum" where
  "getHours d = (case d of None \<Rightarrow> None | Some t \<Rightarrow> Some (hourOfDay t))"

definition isSameDay :: "Date \<Rightarrow> Date \<Rightarrow> bool" where
  "isSameDay a b =
     (case (a, b) of (Some x, Some y) \<Rightarrow> dayNumber x = dayNumber y | _ \<Rightarrow> False)"

subsection \<open>JavaScript numbers: binary64 with round-to-nearest, ties to even\<close>

text \<open>
  A Number is NaN, an infinity, or a finite binary64 value, held as the rational it
  denotes (the sign of zero is not kept: no operation of the page observes it). An
  arithmetic operation computes the exact result and rounds it to the nearest binary64
  value, ties to the even significand; a rounded magnitude of \<open>2^1024\<close> or more, that
  is one of binary exponent 1024 or more, is an infinity.
\<close>

datatype number = NaN | MinusInfinity | Finite rat | PlusInfinity

text \<open>\<open>ilog2 x\<close> is the exponent \<open>e\<close> with \<open>2^e \<le> x < 2^(e+1)\<close>, for positive \<open>x\<close>.\<close>

definition ilog2 :: "rat \<Rightarrow> int" where
  "ilog2 x = (if 1 \<le> x then bitlen \<lfloor>x\<rfloor> - 1 else - bitlen (\<lceil>1 / x\<rceil> - 1))"

definition roundHalfEven :: "rat \<Rightarrow> int" where
  "roundHalfEven r =
     (let f = \<lfloor>r\<rfloor>; d = r - of_int f
      in if d < 1 / 2 then f else if 1 / 2 < d then f + 1 else if even f then f else f + 1)"

text \<open>The unit in the last place of \<open>x\<close>: 52 fraction bits, exponents from \<open>-1022\<close>
  (below that the values are subnormal and the unit stays \<open>2^-1074\<close>).\<close>

definition ulp :: "rat \<Rightarrow> rat" where
  "ulp x = 2 powi (max (ilog2 \<bar>x\<bar>) (- 1022) - 52)"

definition roundToDouble :: "rat \<Rightarrow> rat" where
  "roundToDouble x = (if x = 0 then 0 else of_int (roundHalfEven (x / ulp x)) * ulp x)"

definition toNumber :: "rat \<Rightarrow> number" where
  "toNumber x =
     (let v = roundToDouble x
      in if 1024 \<le> ilog2 \<bar>v\<bar> then (if 0 < v then PlusInfinity else MinusInfinity)
         else Finite v)"

definition numSign :: "number \<Rightarrow> int" where
  "numSign x =
     (case x of NaN \<Rightarrow> 0 | MinusInfinity \<Rightarrow> - 1 | PlusInfinity \<Rightarrow> 1
      | Finite a \<Rightarrow> if a < 0 then - 1 else if a = 0 then 0 else 1)"

text \<open>\<^verbatim>\<open>x * y\<close>: NaN is absorbing, an infinity times zero is NaN.\<close>

definition js_mul :: "number \<Rightarrow> number \<Rightarrow> number" where
  "js_mul x y =
     (case (x, y) of
        (NaN, _) \<Rightarrow> NaN
      | (_, NaN) \<Rightarrow> NaN
      | (Finite a, Finite b) \<Rightarrow> toNumber (a * b)
      | _ \<Rightarrow> (let s = numSign x * numSign y
              in if s = 0 then NaN else if 0 < s then PlusInfinity else MinusInfinity))"

text \<open>\<^verbatim>\<open>x + y\<close>: opposite infinities add to NaN.\<close>

definition js_add :: "number \<Rightarrow> number \<Rightarrow> number" where
  "js_add x y =
     (case (x, y) of
        (NaN, _) \<Rightarrow> NaN
      | (_, NaN) \<Rightarrow> NaN
      | (Finite a, Finite b) \<Rightarrow> toNumber (a + b)
      | (PlusInfinity, MinusInfinity) \<Rightarrow> NaN
      | (MinusInfinity, PlusInfinity) \<Rightarrow> NaN
      | (PlusInfinity, _) \<Rightarrow> PlusInfinity
      | (_, PlusInfinity) \<Rightarrow> PlusInfinity
      | (MinusInfinity, _) \<Rightarrow> MinusInfinity
      | (_, MinusInfinity) \<Rightarrow> MinusInfinity)"

text \<open>\<^verbatim>\<open>Math.round(x)\<close>: the nearest integer, a tie going up.\<close>

definition Math_round :: "number \<Rightarrow> number" where
  "Math_round x = (case x of Finite a \<Rightarrow> Finite (of_int \<lfloor>a + 1 / 2\<rfloor>) | _ \<Rightarrow> x)"

text \<open>\<^verbatim>\<open>x <= y\<close>: false when either side is NaN.\<close>

definition js_le :: "number \<Rightarrow> number \<Rightarrow> bool" where
  "js_le x y =
     (case (x, y) of
        (NaN, _) \<Rightarrow> False
      | (_, NaN) \<Rightarrow> False
      | (MinusInfinity, _) \<Rightarrow> True
      | (_, PlusInfinity) \<Rightarrow> True
      | (Finite a, Finite b) \<Rightarrow> a \<le> b
      | _ \<Rightarrow> False)"

subsection \<open>Page state\<close>

text \<open>
  The details come from the URL; \<open>price\<close> and \<open>rating\<close> are \<^verbatim>\<open>Number(param) || 0\<close>, any
  Number but NaN (the text \<^verbatim>\<open>Infinity\<close> reads as the infinity). The schedule
  has the shape of the interfaces \<^verbatim>\<open>TimeSlot\<close>, \<^verbatim>\<open>DaySchedule\<close> and \<^verbatim>\<open>ActiveSchedule\<close>
  that the page declares, with a weekday possibly absent and a slot list possibly
  missing, the two cases the resolver tests for. A booking row carries its two
  timestamps as the store returns them.
\<close>

record BookingDetails =
  streamerId :: string
  streamerName :: string
  date :: string
  startTime :: string
  endTime :: string
  platform :: string
  price :: number
  location :: string
  rating :: number

record TimeSlot =
  slotStart :: string
  slotEnd :: string

record DaySchedule =
  slots :: "TimeSlot list option"

type_synonym ActiveSchedule = "int \<Rightarrow> DaySchedule option"

record Booking =
  start_time :: string
  end_time :: string

record PageState =
  bookingDetails :: "BookingDetails option"
  activeSchedule :: "ActiveSchedule option"
  bookings :: "Booking list"
  selectedHours :: "string list"

datatype js_error = TypeError | Error string

subsection \<open>isSlotAvailable\<close>

definition slotCovers :: "hournum \<Rightarrow> TimeSlot \<Rightarrow> bool" where
  "slotCovers hour slot =
     (let start = parseInt (part0 (split (CHR '':'') (slotStart slot)));
          end' = parseInt (part0 (split (CHR '':'') (slotEnd slot)))
      in num_ge hour start \<and> num_lt hour end')"

definition bookingBlocks :: "(string \<Rightarrow> Date) \<Rightarrow> Date \<Rightarrow> hournum \<Rightarrow> Booking \<Rightarrow> bool" where
  "bookingBlocks newDate d hour booking =
     (let bookingStart = newDate (start_time booking);
          bookingEnd = newDate (end_time booking)
      in isSameDay d bookingStart \<and>
         ((num_ge hour (getHours bookingStart) \<and> num_lt hour (getHours bookingEnd)) \<or>
          (num_eq hour (getHours bookingEnd) \<and>
           num_gt (getHours bookingEnd) (getHours bookingStart))))"

definition isSlotAvailable :: "(string \<Rightarrow> Date) \<Rightarrow> PageState \<Rightarrow> Date \<Rightarrow> hournum \<Rightarrow> bool" where
  "isSlotAvailable newDate st d hour =
     (if bookingDetails st = None \<or> activeSchedule st = None then False
      else case activeSchedule st of
        None \<Rightarrow> False
      | Some sched \<Rightarrow>
          (case (case getDay d of None \<Rightarrow> None | Some k \<Rightarrow> sched k) of
             None \<Rightarrow> False
           | Some daySchedule \<Rightarrow>
               (case slots daySchedule of
                  None \<Rightarrow> False
                | Some sl \<Rightarrow>
                    (let isInSchedule = list_ex (slotCovers hour) sl;
                         bookingExists = list_ex (bookingBlocks newDate d hour) (bookings st)
                     in isInSchedule \<and> \<not> bookingExists))))"

subsection \<open>generateTimeOptions\<close>

definition generateTimeOptions :: "(string \<Rightarrow> Date) \<Rightarrow> PageState \<Rightarrow> string list" where
  "generateTimeOptions newDate st =
     (case bookingDetails st of
        None \<Rightarrow> []
      | Some bd \<Rightarrow>
          (let start = parseInt (part0 (split (CHR '':'') (startTime bd)));
               end' = parseInt (part0 (split (CHR '':'') (endTime bd)));
               options = arrayFrom (num_sub end' start)
                           (\<lambda>i. hourLabel (num_add start (Some (int i))))
           in filter (\<lambda>hour. isSlotAvailable newDate st (newDate (date bd)) (parseInt hour))
                options))"

subsection \<open>handleHourSelection\<close>

text \<open>\<^verbatim>\<open>xs.filter(p)\<close> for a callback that may throw: the first exception leaves the filter.\<close>

fun filterE :: "('a \<Rightarrow> js_error + bool) \<Rightarrow> 'a list \<Rightarrow> js_error + 'a list" where
  "filterE p [] = Inr []"
| "filterE p (x # xs) =
     (case p x of
        Inl e \<Rightarrow> Inl e
      | Inr b \<Rightarrow> (case filterE p xs of Inl e \<Rightarrow> Inl e | Inr ys \<Rightarrow> Inr (if b then x # ys else ys)))"

text \<open>The callback \<^verbatim>\<open>h => isSlotAvailable(new Date(bookingDetails!.date), parseInt(h))\<close>:
  reading \<^verbatim>\<open>.date\<close> of a null \<^verbatim>\<open>bookingDetails\<close> is a TypeError.\<close>

definition availableCallback :: "(string \<Rightarrow> Date) \<Rightarrow> PageState \<Rightarrow> string \<Rightarrow> js_error + bool" where
  "availableCallback newDate st h =
     (case bookingDetails st of
        None \<Rightarrow> Inl TypeError
      | Some bd \<Rightarrow> Inr (isSlotAvailable newDate st (newDate (date bd)) (parseInt h)))"

definition handleHourSelection ::
  "(string \<Rightarrow> Date) \<Rightarrow> PageState \<Rightarrow> string list \<Rightarrow> string \<Rightarrow> js_error + string list" where
  "handleHourSelection newDate st prevSelected hour =
     (if hour \<in> set prevSelected then Inr (filter (\<lambda>h. h \<noteq> hour) prevSelected)
      else
        (let newSelected = sort (prevSelected @ [hour])
         in if length newSelected > 1 then
              (let start = hd newSelected;
                   end' = last newSelected
               in filterE (availableCallback newDate st)
                    (arrayFrom (num_add (num_sub (parseInt end') (parseInt start)) (Some 1))
                       (\<lambda>i. hourLabel (num_add (parseInt start) (Some (int i))))))
            else Inr newSelected))"

text \<open>The state update \<^verbatim>\<open>setSelectedHours(prev => ...)\<close>.\<close>

definition toggleHour :: "(string \<Rightarrow> Date) \<Rightarrow> PageState \<Rightarrow> string \<Rightarrow> js_error + PageState" where
  "toggleHour newDate st hour =
     (case handleHourSelection newDate st (selectedHours st) hour of
        Inl e \<Rightarrow> Inl e
      | Inr sel \<Rightarrow> Inr (st\<lparr>selectedHours := sel\<rparr>))"

subsection \<open>Initial selection from the URL\<close>

text \<open>The empty string is falsy, so both parameters must be non-empty.\<close>

definition initialSelectedHours :: "BookingDetails \<Rightarrow> string list \<Rightarrow> string list" where
  "initialSelectedHours details current =
     (if startTime details \<noteq> [] \<and> endTime details \<noteq> [] then
        (let start = parseInt (part0 (split (CHR '':'') (startTime details)));
             end' = parseInt (part0 (split (CHR '':'') (endTime details)))
         in arrayFrom (num_sub end' start) (\<lambda>i. hourLabel (num_add start (Some (int i)))))
      else current)"

subsection \<open>Page load and data fetches\<close>

text \<open>The \<^verbatim>\<open>useState\<close> initial values.\<close>

definition initialState :: PageState where
  "initialState =
     \<lparr>bookingDetails = None, activeSchedule = None, bookings = [], selectedHours = []\<rparr>"

text \<open>The effect on the search parameters: it stores the details and initialises the
  selection.\<close>

definition loadFromUrl :: "BookingDetails \<Rightarrow> PageState \<Rightarrow> PageState" where
  "loadFromUrl details st =
     st\<lparr>bookingDetails := Some details,
        selectedHours := initialSelectedHours details (selectedHours st)\<rparr>"

text \<open>
  Completion of \<^verbatim>\<open>fetchBookings\<close> with the store's answer \<^verbatim>\<open>{ data, error }\<close>: an error
  is reported and leaves the list as it is, otherwise \<^verbatim>\<open>setBookings(data || [])\<close>.
\<close>

definition bookingsFetched :: "js_error + Booking list option \<Rightarrow> PageState \<Rightarrow> PageState" where
  "bookingsFetched response st =
     (case response of
        Inl e \<Rightarrow> st
      | Inr data \<Rightarrow> st\<lparr>bookings := (case data of None \<Rightarrow> [] | Some rows \<Rightarrow> rows)\<rparr>)"

text \<open>
  Completion of \<^verbatim>\<open>fetchActiveSchedule\<close>: on an error or without a row nothing changes,
  otherwise the parsed schedule (possibly \<^verbatim>\<open>null\<close>) is stored.
\<close>

definition scheduleFetched ::
  "js_error + ActiveSchedule option option \<Rightarrow> PageState \<Rightarrow> PageState" where
  "scheduleFetched response st =
     (case response of
        Inl e \<Rightarrow> st
      | Inr None \<Rightarrow> st
      | Inr (Some parsed) \<Rightarrow> st\<lparr>activeSchedule := parsed\<rparr>)"

subsection \<open>Sequences of toggles\<close>

fun toggleAll :: "(string \<Rightarrow> Date) \<Rightarrow> PageState \<Rightarrow> string list \<Rightarrow> js_error + PageState" where
  "toggleAll newDate st [] = Inr st"
| "toggleAll newDate st (h # hs) =
     (case toggleHour newDate st h of Inl e \<Rightarrow> Inl e | Inr st' \<Rightarrow> toggleAll newDate st' hs)"

text \<open>The selection that a sequence of toggles leaves.\<close>

definition selectionAfter ::
  "(string \<Rightarrow> Date) \<Rightarrow> PageState \<Rightarrow> string list \<Rightarrow> js_error + string list" where
  "selectionAfter newDate st hs =
     (case toggleAll newDate st hs of Inl e \<Rightarrow> Inl e | Inr st' \<Rightarrow> Inr (selectedHours st'))"

definition toggleTwice ::
  "(string \<Rightarrow> Date) \<Rightarrow> PageState \<Rightarrow> string list \<Rightarrow> string \<Rightarrow> js_error + string list" where
  "toggleTwice newDate st sel hour =
     (case handleHourSelection newDate st sel hour of
        Inl e \<Rightarrow> Inl e
      | Inr sel' \<Rightarrow> handleHourSelection newDate st sel' hour)"

text \<open>The invariant of the specification, in its words: the selected hours are
  consecutive, and each is available.\<close>

fun consecutiveHours :: "string list \<Rightarrow> bool" where
  "consecutiveHours (x # y # r) =
     (num_eq (parseInt y) (num_add (parseInt x) (Some 1)) \<and> consecutiveHours (y # r))"
| "consecutiveHours _ = True"

definition allAvailable :: "(string \<Rightarrow> Date) \<Rightarrow> PageState \<Rightarrow> string list \<Rightarrow> bool" where
  "allAvailable newDate st sel =
     (case bookingDetails st of
        None \<Rightarrow> sel = []
      | Some bd \<Rightarrow>
          list_all (\<lambda>h. isSlotAvailable newDate st (newDate (date bd)) (parseInt h)) sel)"

text \<open>
  Coverage in the words of the specification: a booking occupies the local time from its
  start up to its end, and covers the hour \<open>h\<close> of a date's calendar day when that hour
  lies in this interval.
\<close>

definition bookingCoversHour :: "(string \<Rightarrow> Date) \<Rightarrow> Date \<Rightarrow> int \<Rightarrow> Booking \<Rightarrow> bool" where
  "bookingCoversHour newDate d h booking =
     (case (d, newDate (start_time booking), newDate (end_time booking)) of
        (Some t, Some bs, Some be) \<Rightarrow>
          (dayNumber bs < dayNumber t \<or> dayNumber bs = dayNumber t \<and> hourOfDay bs \<le> h) \<and>
          (dayNumber t < dayNumber be \<or> dayNumber t = dayNumber be \<and> h < hourOfDay be)
      | _ \<Rightarrow> False)"

subsection \<open>Auxiliary predicates for the proofs\<close>

definition decimalChar :: "char \<Rightarrow> bool" where
  "decimalChar c = (48 \<le> (of_char c :: nat) \<and> (of_char c :: nat) \<le> 57)"


definition hoursInRange :: "int list \<Rightarrow> bool" where
  "hoursInRange hs = list_all (\<lambda>h. 0 \<le> h \<and> h < 100) hs"

subsection \<open>The scenarios of the specification\<close>

text \<open>
  A date parser fixed on the strings of the scenarios: 2024-01-15 is a Monday, day 19737
  after 1970-01-01. Every other string is an invalid date.
\<close>

definition exampleNewDate :: "string \<Rightarrow> Date" where
  "exampleNewDate s =
     (if s = ''2024-01-15'' then Some \<lparr>dayNumber = 19737, hourOfDay = 0\<rparr>
      else if s = ''2024-01-15T11:00:00'' then Some \<lparr>dayNumber = 19737, hourOfDay = 11\<rparr>
      else if s = ''2024-01-15T12:00:00'' then Some \<lparr>dayNumber = 19737, hourOfDay = 12\<rparr>
      else None)"

definition exampleDetails :: BookingDetails where
  "exampleDetails =
     \<lparr>streamerId = ''42'', streamerName = ''Ayu'', date = ''2024-01-15'',
      startTime = ''10:00'', endTime = ''13:00'', platform = ''shopee'',
      price = Finite 100000, location = ''Jakarta'', rating = Finite 5\<rparr>"

definition mondaySchedule :: ActiveSchedule where
  "mondaySchedule =
     Map.empty(1 \<mapsto> \<lparr>slots = Some [\<lparr>slotStart = ''09:00'', slotEnd = ''17:00''\<rparr>]\<rparr>)"

definition gapSchedule :: ActiveSchedule where
  "gapSchedule =
     Map.empty(1 \<mapsto> \<lparr>slots = Some [\<lparr>slotStart = ''09:00'', slotEnd = ''11:00''\<rparr>,
                                     \<lparr>slotStart = ''12:00'', slotEnd = ''17:00''\<rparr>]\<rparr>)"

definition exampleBooking :: Booking where
  "exampleBooking = \<lparr>start_time = ''2024-01-15T11:00:00'', end_time = ''2024-01-15T12:00:00''\<rparr>"

text \<open>Scenario A: Monday slot 09:00--17:00, no bookings.\<close>

definition scenarioA :: PageState where
  "scenarioA =
     \<lparr>bookingDetails = Some exampleDetails, activeSchedule = Some mondaySchedule,
      bookings = [], selectedHours = []\<rparr>"

text \<open>Scenario B: the same with a booking 11:00--12:00 on that Monday.\<close>

definition scenarioB :: PageState where
  "scenarioB = scenarioA\<lparr>bookings := [exampleBooking]\<rparr>"

text \<open>Scenario D: 11:00 is outside the schedule, 10:00 and 12:00 are inside.\<close>

definition scenarioD :: PageState where
  "scenarioD = scenarioA\<lparr>activeSchedule := Some gapSchedule\<rparr>"

text \<open>The page once the details are loaded and before any schedule has arrived.\<close>

definition scenarioNoSchedule :: PageState where
  "scenarioNoSchedule = loadFromUrl exampleDetails initialState"

text \<open>The page with its schedule when the fetch of the bookings has failed.\<close>

definition scenarioBookingsFailed :: PageState where
  "scenarioBookingsFailed =
     bookingsFetched (Inl (Error ''fetch failed''))
       (scheduleFetched (Inr (Some (Some mondaySchedule)))
          (loadFromUrl exampleDetails initialState))"

text \<open>
  A late booking, as the page's confirmation writes it for the selection 22:00, 23:00 on
  2024-01-15 in a zone seven hours ahead of UTC: the start is the local
  \<^verbatim>\<open>2024-01-15T22:00\<close>, the end is one hour after 23:00 in ISO form, which is local
  midnight of the next day. The schedule offers the Monday evening up to 24:00.
\<close>

definition lateNewDate :: "string \<Rightarrow> Date" where
  "lateNewDate s =
     (if s = ''2024-01-15'' then Some \<lparr>dayNumber = 19737, hourOfDay = 7\<rparr>
      else if s = ''2024-01-15T22:00'' then Some \<lparr>dayNumber = 19737, hourOfDay = 22\<rparr>
      else if s = ''2024-01-15T17:00:00.000Z'' then Some \<lparr>dayNumber = 19738, hourOfDay = 0\<rparr>
      else None)"

definition lateBooking :: Booking where
  "lateBooking = \<lparr>start_time = ''2024-01-15T22:00'', end_time = ''2024-01-15T17:00:00.000Z''\<rparr>"

definition eveningSchedule :: ActiveSchedule where
  "eveningSchedule =
     Map.empty(1 \<mapsto> \<lparr>slots = Some [\<lparr>slotStart = ''18:00'', slotEnd = ''24:00''\<rparr>]\<rparr>)"

definition scenarioLate :: PageState where
  "scenarioLate =
     \<lparr>bookingDetails = Some exampleDetails, activeSchedule = Some eveningSchedule,
      bookings = [lateBooking], selectedHours = []\<rparr>"

text \<open>The details of a URL whose price parameter is \<^verbatim>\<open>Infinity\<close>, with nothing selected yet.\<close>

definition scenarioInfinitePrice :: PageState where
  "scenarioInfinitePrice =
     \<lparr>bookingDetails = Some (exampleDetails\<lparr>price := PlusInfinity\<rparr>),
      activeSchedule = Some mondaySchedule, bookings = [], selectedHours = []\<rparr>"

subsection \<open>The price breakdown\<close>

text \<open>
  The page computes the breakdown from \<^verbatim>\<open>bookingDetails.price\<close> and
  \<^verbatim>\<open>selectedHours.length\<close>; the literals \<^verbatim>\<open>0.30\<close> and \<^verbatim>\<open>0.11\<close> denote the binary64
  values nearest to 3/10 and 11/100.
\<close>

definition subtotal :: "number \<Rightarrow> nat \<Rightarrow> number" where
  "subtotal basePrice hourCount = js_mul basePrice (Finite (of_nat hourCount))"

definition platformFee :: "number \<Rightarrow> nat \<Rightarrow> number" where
  "platformFee basePrice hourCount = js_mul (subtotal basePrice hourCount) (toNumber (3 / 10))"

definition subtotalWithPlatformFee :: "number \<Rightarrow> nat \<Rightarrow> number" where
  "subtotalWithPlatformFee basePrice hourCount =
     js_add (subtotal basePrice hourCount) (platformFee basePrice hourCount)"

definition tax :: "number \<Rightarrow> nat \<Rightarrow> number" where
  "tax basePrice hourCount = js_mul (subtotalWithPlatformFee basePrice hourCount) (toNumber (11 / 100))"

definition total :: "number \<Rightarrow> nat \<Rightarrow> number" where
  "total basePrice hourCount =
     Math_round (js_add (subtotalWithPlatformFee basePrice hourCount) (tax basePrice hourCount))"

text \<open>The breakdown of a page state: empty before the details are loaded (the page
  renders its loading notice instead).\<close>

definition pageTotal :: "PageState \<Rightarrow> number option" where
  "pageTotal st =
     (case bookingDetails st of
        None \<Rightarrow> None
      | Some bd \<Rightarrow> Some (total (price bd) (length (selectedHours st))))"

text \<open>The numbers that a price computation from a non-negative base price meets.\<close>

definition nonNegative :: "number \<Rightarrow> bool" where
  "nonNegative x = (case x of Finite a \<Rightarrow> 0 \<le> a | PlusInfinity \<Rightarrow> True | _ \<Rightarrow> False)"

subsection \<open>The payment-success handler\<close>

text \<open>
  The store as the handler sees it: the bookings by id, each with its joined streamer, the
  notifications, and the page's outputs (toasts, navigation, console). The fields of a
  notification carry the prefix \<open>n_\<close> where a row of another table has a field of the
  same name.
\<close>

record StreamerRow =
  row_id :: int
  first_name :: string
  last_name :: string
  user_id :: string

record BookingRow =
  streamer :: "StreamerRow option"
  streamer_id :: int
  client_id :: string
  client_first_name :: string
  client_last_name :: string
  status :: string

record Notification =
  n_user_id :: string
  n_streamer_id :: "int option"
  message :: string
  n_type :: string
  booking_id :: int
  created_at :: string
  is_read :: bool

datatype Toast = ToastSuccess string | ToastError string

record World =
  bookingsTable :: "int \<Rightarrow> BookingRow option"
  notificationsTable :: "Notification list"
  toasts :: "Toast list"
  route :: "string option"
  consoleErrors :: "string list"

text \<open>What lies outside the page: whether the store answers each request with an error,
  and the clock.\<close>

record Store =
  selectFails :: bool
  insertFails :: bool
  updateFails :: bool
  now :: string

record GatewayResult =
  order_id :: "string option"

text \<open>
  The body of the \<^verbatim>\<open>try\<close> block. It returns the exception it throws, if any, together
  with the world as it stands at that moment.
\<close>

definition paymentSuccessBody ::
  "Store \<Rightarrow> GatewayResult \<Rightarrow> World \<Rightarrow> (js_error + unit) \<times> World" where
  "paymentSuccessBody env result w =
     (case order_id result of
        None \<Rightarrow> (Inl TypeError, w)
      | Some oid \<Rightarrow>
          (let orderIdParts = split (CHR ''-'') oid;
               bookingId = parseInt10 (part1 orderIdParts)
           in case bookingId of
                None \<Rightarrow> (Inl (Error ''Invalid booking ID format''), w)
              | Some bid \<Rightarrow>
                  (case (if selectFails env then None else bookingsTable w bid) of
                     None \<Rightarrow> (Inl (Error ''Booking not found''), w)
                   | Some booking \<Rightarrow>
                       (case streamer booking of
                          None \<Rightarrow> (Inl TypeError, w)
                        | Some s \<Rightarrow>
                            (let notifications =
                                   [\<lparr>n_user_id = user_id s,
                                     n_streamer_id = Some (streamer_id booking),
                                     message = ''New booking request from '' @ client_first_name booking
                                       @ '' '' @ client_last_name booking @ ''. Payment confirmed.'',
                                     n_type = ''confirmation'', booking_id = bid,
                                     created_at = now env, is_read = False\<rparr>,
                                    \<lparr>n_user_id = client_id booking,
                                     n_streamer_id = None,
                                     message = ''Payment confirmed for booking with '' @ first_name s
                                       @ '' '' @ last_name s @ ''. Waiting for acceptance.'',
                                     n_type = ''confirmation'', booking_id = bid,
                                     created_at = now env, is_read = False\<rparr>];
                                 w1 = (if insertFails env
                                       then w\<lparr>consoleErrors :=
                                                consoleErrors w @ [''Error creating notifications:'']\<rparr>
                                       else w\<lparr>notificationsTable :=
                                                notificationsTable w @ notifications\<rparr>);
                                 w2 = (if updateFails env then w1
                                       else case bookingsTable w1 bid of
                                              None \<Rightarrow> w1
                                            | Some row \<Rightarrow>
                                                w1\<lparr>bookingsTable :=
                                                     (bookingsTable w1)
                                                       (bid \<mapsto> row\<lparr>status := ''pending''\<rparr>)\<rparr>);
                                 w3 = w2\<lparr>toasts := toasts w2 @
                                        [ToastSuccess
                                           ''Payment successful! Booking request has been sent.'']\<rparr>;
                                 w4 = w3\<lparr>route := Some ''/client-bookings''\<rparr>
                             in (Inr (), w4))))))"

text \<open>The handler: the \<^verbatim>\<open>catch\<close> block logs the exception and shows the support notice.\<close>

definition handlePaymentSuccess :: "Store \<Rightarrow> GatewayResult \<Rightarrow> World \<Rightarrow> World" where
  "handlePaymentSuccess env result w =
     (case paymentSuccessBody env result w of
        (Inl e, w') \<Rightarrow>
          w'\<lparr>consoleErrors := consoleErrors w' @ [''Error handling payment success:''],
             toasts := toasts w' @
               [ToastError
                  ''Payment successful but encountered an error. Please contact support.'']\<rparr>
      | (Inr u, w') \<Rightarrow> w')"

text \<open>A world with one booking awaiting its payment, and two gateway results.\<close>

definition exampleWorld :: World where
  "exampleWorld =
     \<lparr>bookingsTable =
        Map.empty(7 \<mapsto> \<lparr>streamer = Some \<lparr>row_id = 42, first_name = ''Ayu'', last_name = ''Lestari'',
                                           user_id = ''u-42''\<rparr>,
                          streamer_id = 42, client_id = ''u-9'', client_first_name = ''Budi'',
                          client_last_name = ''Santoso'', status = ''payment_pending''\<rparr>),
      notificationsTable = [], toasts = [], route = None, consoleErrors = []\<rparr>"

definition exampleStore :: Store where
  "exampleStore =
     \<lparr>selectFails = False, insertFails = False, updateFails = False,
      now = ''2024-01-15T03:00:00.000Z''\<rparr>"

definition malformedResult :: GatewayResult where
  "malformedResult = \<lparr>order_id = Some ''booking_7_1705287600''\<rparr>"

definition wellFormedResult :: GatewayResult where
  "wellFormedResult = \<lparr>order_id = Some ''booking-7-1705287600''\<rparr>"

section \<open>Properties of the string built-ins\<close>

lemma of_char_digit: "d < 10 \<Longrightarrow> (of_char (char_of (48 + d :: nat)) :: nat) = 48 + d"
  by simp

lemma decimalChar_char_of: "d < 10 \<Longrightarrow> decimalChar (char_of (48 + d :: nat))"
  by (simp add: decimalChar_def)

lemma digitVal_char_of: "d < 10 \<Longrightarrow> digitVal (char_of (48 + d :: nat)) = Some d"
  by (simp add: digitVal_def)

lemma decimalChar_isDigitOf: "decimalChar c \<Longrightarrow> isDigitOf 10 c"
  by (auto simp: decimalChar_def isDigitOf_def digitVal_def Let_def)

lemma decimalChar_not_white: "decimalChar c \<Longrightarrow> \<not> isWhiteSpace c"
  by (auto simp: decimalChar_def isWhiteSpace_def)

lemma decimalChar_not_special:
  "decimalChar c \<Longrightarrow> c \<noteq> CHR ''-'' \<and> c \<noteq> CHR ''+'' \<and> c \<noteq> CHR ''x'' \<and> c \<noteq> CHR ''X'' \<and> c \<noteq> CHR '':''"
  by (auto simp: decimalChar_def)

lemma colon_not_digit: "\<not> isDigitOf 10 (CHR '':'')"
  by (simp add: isDigitOf_def digitVal_def)

lemma natToString_decimal: "c \<in> set (natToString n) \<Longrightarrow> decimalChar c"
proof (induction n arbitrary: c rule: natToString.induct)
  case (1 n)
  show ?case
  proof (cases "n < 10")
    case True
    with "1.prems" show ?thesis
      by (simp add: natToString.simps [of n] decimalChar_char_of)
  next
    case False
    with "1.prems" "1.IH" show ?thesis
      by (auto simp: natToString.simps [of n] decimalChar_char_of)
  qed
qed

lemma natToString_nonempty: "natToString n \<noteq> []"
  by (simp add: natToString.simps [of n])

lemma natToString_length2: "10 \<le> n \<Longrightarrow> 2 \<le> length (natToString n)"
  using natToString_nonempty [of "n div 10"]
  by (cases "natToString (n div 10)") (simp_all add: natToString.simps [of n])

lemma digitsValue_snoc:
  "digitsValue r (ds @ [c]) = digitsValue r ds * r + (case digitVal c of None \<Rightarrow> 0 | Some d \<Rightarrow> d)"
  by (simp add: digitsValue_def)

lemma digitsValue_natToString: "digitsValue 10 (natToString n) = n"
proof (induction n rule: natToString.induct)
  case (1 n)
  show ?case
  proof (cases "n < 10")
    case True
    then show ?thesis
      by (simp add: natToString.simps [of n] digitsValue_def digitVal_char_of)
  next
    case False
    with "1.IH" show ?thesis
      by (simp add: natToString.simps [of n] digitsValue_snoc digitVal_char_of)
  qed
qed

lemma digitsValue_zero_Cons: "digitsValue 10 (CHR ''0'' # ds) = digitsValue 10 ds"
  by (simp add: digitsValue_def digitVal_def)

lemma digitsValue_zero_pad: "digitsValue 10 (replicate k (CHR ''0'') @ ds) = digitsValue 10 ds"
  by (induction k) (simp_all add: digitsValue_zero_Cons)

lemma takeWhile_digits:
  "\<forall>c\<in>set ds. decimalChar c \<Longrightarrow> takeWhile (isDigitOf 10) (ds @ '':00'') = ds"
  by (induction ds) (auto simp: decimalChar_isDigitOf colon_not_digit)

lemma stripHexPrefix_digits:
  assumes "\<forall>c\<in>set ds. decimalChar c"
  shows "stripHexPrefix (ds @ '':00'') = (10, ds @ '':00'')"
proof (cases ds)
  case Nil
  then show ?thesis by (simp add: stripHexPrefix_def)
next
  case (Cons a r)
  show ?thesis
  proof (cases r)
    case Nil
    with Cons show ?thesis by (simp add: stripHexPrefix_def)
  next
    case (Cons b r')
    with \<open>ds = a # r\<close> assms have "decimalChar b" by simp
    then have "b \<noteq> CHR ''x'' \<and> b \<noteq> CHR ''X''" using decimalChar_not_special by blast
    with Cons \<open>ds = a # r\<close> show ?thesis by (simp add: stripHexPrefix_def)
  qed
qed

lemma parseInt_digits:
  assumes "ds \<noteq> []" "\<forall>c\<in>set ds. decimalChar c"
  shows "parseInt (ds @ '':00'') = Some (int (digitsValue 10 ds))"
proof -
  obtain a r where ds: "ds = a # r" using assms(1) by (cases ds) auto
  with assms(2) have a: "decimalChar a" by simp
  have "dropWhile isWhiteSpace (ds @ '':00'') = ds @ '':00''"
    using a ds by (simp add: decimalChar_not_white)
  moreover have "stripSign (ds @ '':00'') = (1, ds @ '':00'')"
    using a ds decimalChar_not_special [of a] by (simp add: stripSign_def)
  ultimately show ?thesis
    using assms by (simp add: parseInt_def stripHexPrefix_digits parseDigits_def takeWhile_digits)
qed

lemma parseInt_minus_digits:
  assumes "ds \<noteq> []" "\<forall>c\<in>set ds. decimalChar c"
  shows "parseInt (CHR ''-'' # ds @ '':00'') = Some (- int (digitsValue 10 ds))"
proof -
  have "dropWhile isWhiteSpace (CHR ''-'' # ds @ '':00'') = CHR ''-'' # ds @ '':00''"
    by (simp add: isWhiteSpace_def)
  moreover have "stripSign (CHR ''-'' # ds @ '':00'') = (-1, ds @ '':00'')"
    by (simp add: stripSign_def)
  ultimately show ?thesis
    using assms by (simp add: parseInt_def stripHexPrefix_digits parseDigits_def takeWhile_digits)
qed

lemma parseInt_hourLabel: "parseInt (hourLabel (Some n)) = Some n"
proof (cases "n < 0")
  case True
  let ?ds = "natToString (nat (- n))"
  have "2 \<le> length (CHR ''-'' # ?ds)"
    using natToString_nonempty [of "nat (- n)"] by (cases ?ds) auto
  then have "hourLabel (Some n) = CHR ''-'' # ?ds @ '':00''"
    using True by (simp add: hourLabel_def numToString_def padStart_def)
  then show ?thesis
    using True parseInt_minus_digits [of ?ds]
    by (simp add: natToString_nonempty natToString_decimal digitsValue_natToString)
next
  case False
  let ?ds = "natToString (nat n)"
  let ?pd = "replicate (2 - length ?ds) (CHR ''0'') @ ?ds"
  have lab: "hourLabel (Some n) = ?pd @ '':00''"
    using False by (simp add: hourLabel_def numToString_def padStart_def)
  have dec: "\<forall>c\<in>set ?pd. decimalChar c"
    using natToString_decimal [of _ "nat n"] by (auto simp: decimalChar_def)
  have ne: "?pd \<noteq> []" by (simp add: natToString_nonempty)
  have "digitsValue 10 ?pd = digitsValue 10 ?ds"
    by (rule digitsValue_zero_pad)
  then show ?thesis
    using False parseInt_digits [OF ne dec] lab by (simp add: digitsValue_natToString)
qed


lemma map_offset_upto: "map (\<lambda>i. f (s + int i)) [0 ..< n] = map f [s .. s + int n - 1]"
proof (induction n)
  case 0
  then show ?case by simp
next
  case (Suc n)
  have "[s .. s + int (Suc n) - 1] = [s .. s + int n - 1] @ [s + int n]"
    using upto_rec2 [of s "s + int n"] by simp
  with Suc show ?case by simp
qed

lemma arrayFrom_span:
  "arrayFrom (Some (e - s)) (\<lambda>i. hourLabel (num_add (Some s) (Some (int i))))
     = map (\<lambda>h. hourLabel (Some h)) [s .. e - 1]"
proof (cases "s \<le> e")
  case True
  then show ?thesis
    using map_offset_upto [of "\<lambda>h. hourLabel (Some h)" s "nat (e - s)"]
    by (simp add: arrayFrom_def num_add_def)
next
  case False
  then show ?thesis by (simp add: arrayFrom_def)
qed


lemma char_of_48: "char_of (48 :: nat) = CHR ''0''"
  by code_simp

lemma hourLabel_two_digits:
  assumes "0 \<le> h" "h < 100"
  shows "hourLabel (Some h)
           = [char_of (48 + nat h div 10), char_of (48 + nat h mod 10), CHR '':'', CHR ''0'', CHR ''0'']"
proof (cases "h < 10")
  case True
  with assms have "nat h < 10" "nat h div 10 = 0" by simp_all
  with assms show ?thesis
    by (simp add: hourLabel_def numToString_def padStart_def natToString.simps [of "nat h"]
        char_of_48)
next
  case False
  with assms have "nat h div 10 < 10" by simp
  with False assms show ?thesis
    by (simp add: hourLabel_def numToString_def padStart_def natToString.simps [of "nat h"]
        natToString.simps [of "nat h div 10"])
qed

lemma options_of_window:
  assumes "parseInt (part0 (split (CHR '':'') a)) = Some s"
    and "parseInt (part0 (split (CHR '':'') b)) = Some e"
  shows "arrayFrom (num_sub (parseInt (part0 (split (CHR '':'') b)))
                            (parseInt (part0 (split (CHR '':'') a))))
           (\<lambda>i. hourLabel (num_add (parseInt (part0 (split (CHR '':'') a))) (Some (int i))))
         = map (\<lambda>h. hourLabel (Some h)) [s .. e - 1]"
  using assms arrayFrom_span [of e s] by (simp add: num_sub_def)

section \<open>The availability resolver\<close>

lemma isSlotAvailable_blocked:
  assumes "booking \<in> set (bookings st)" "bookingBlocks newDate d hour booking"
  shows "\<not> isSlotAvailable newDate st d hour"
  using assms by (auto simp: isSlotAvailable_def list_ex_iff Let_def split: option.splits)

text \<open>
  Bookings within one day. For a booking of the list whose start falls on the calendar
  day of the date, with start hour \<open>s\<close> and end hour \<open>e\<close> as \<^verbatim>\<open>getHours\<close> reads them: no
  hour with \<open>s \<le> h < e\<close> is available; the hour \<open>e\<close> is not available when \<open>s < e\<close>; the
  booking blocks its end hour exactly when \<open>s < e\<close>, so that an hour \<open>e\<close> which the
  schedule offers is unavailable under this booking alone exactly when \<open>s < e\<close>.
\<close>

theorem booking_blocks_covered_hours:
  assumes "booking \<in> set (bookings st)"
    and "newDate (start_time booking) = Some bs"
    and "newDate (end_time booking) = Some be"
    and "d = Some t"
    and "dayNumber t = dayNumber bs"
  shows "(\<forall>h. hourOfDay bs \<le> h \<and> h < hourOfDay be \<longrightarrow> \<not> isSlotAvailable newDate st d (Some h))
       \<and> (hourOfDay bs < hourOfDay be \<longrightarrow> \<not> isSlotAvailable newDate st d (Some (hourOfDay be)))
       \<and> (bookingBlocks newDate d (Some (hourOfDay be)) booking \<longleftrightarrow> hourOfDay bs < hourOfDay be)
       \<and> (isSlotAvailable newDate (st\<lparr>bookings := []\<rparr>) d (Some (hourOfDay be)) \<longrightarrow>
            (\<not> isSlotAvailable newDate (st\<lparr>bookings := [booking]\<rparr>) d (Some (hourOfDay be))
               \<longleftrightarrow> hourOfDay bs < hourOfDay be))"
proof -
  have blocks: "bookingBlocks newDate d (Some h) booking
                  \<longleftrightarrow> (hourOfDay bs \<le> h \<and> h < hourOfDay be) \<or> (h = hourOfDay be \<and> hourOfDay bs < hourOfDay be)"
    for h
    using assms(2-5)
    by (simp add: bookingBlocks_def isSameDay_def getHours_def num_ge_def num_lt_def num_eq_def
        num_gt_def)
  have inside: "\<forall>h. hourOfDay bs \<le> h \<and> h < hourOfDay be \<longrightarrow> \<not> isSlotAvailable newDate st d (Some h)"
    using isSlotAvailable_blocked [OF assms(1)] blocks by blast
  have at_end: "hourOfDay bs < hourOfDay be \<longrightarrow> \<not> isSlotAvailable newDate st d (Some (hourOfDay be))"
    using isSlotAvailable_blocked [OF assms(1)] blocks by blast
  have own: "bookingBlocks newDate d (Some (hourOfDay be)) booking \<longleftrightarrow> hourOfDay bs < hourOfDay be"
    using blocks [of "hourOfDay be"] by auto
  have alone: "isSlotAvailable newDate (st\<lparr>bookings := []\<rparr>) d (Some (hourOfDay be)) \<longrightarrow>
            (\<not> isSlotAvailable newDate (st\<lparr>bookings := [booking]\<rparr>) d (Some (hourOfDay be))
               \<longleftrightarrow> hourOfDay bs < hourOfDay be)"
    using own by (auto simp: isSlotAvailable_def Let_def split: option.splits)
  from inside at_end own alone show ?thesis by blast
qed

theorem booking_blocks_covered_hours_witness:
  "\<not> isSlotAvailable exampleNewDate scenarioB (exampleNewDate ''2024-01-15'') (Some 11)
   \<and> \<not> isSlotAvailable exampleNewDate scenarioB (exampleNewDate ''2024-01-15'') (Some 12)
   \<and> bookingBlocks exampleNewDate (exampleNewDate ''2024-01-15'') (Some 12) exampleBooking
   \<and> isSlotAvailable exampleNewDate (scenarioB\<lparr>bookings := []\<rparr>) (exampleNewDate ''2024-01-15'') (Some 12)"
proof -
  have h1: "exampleBooking \<in> set (bookings scenarioB)"
    by (simp add: scenarioB_def scenarioA_def)
  have h2: "exampleNewDate (start_time exampleBooking) = Some \<lparr>dayNumber = 19737, hourOfDay = 11\<rparr>"
    by (simp add: exampleBooking_def exampleNewDate_def)
  have h3: "exampleNewDate (end_time exampleBooking) = Some \<lparr>dayNumber = 19737, hourOfDay = 12\<rparr>"
    by (simp add: exampleBooking_def exampleNewDate_def)
  have h4: "exampleNewDate ''2024-01-15'' = Some \<lparr>dayNumber = 19737, hourOfDay = 0\<rparr>"
    by (simp add: exampleNewDate_def)
  have h5: "dayNumber \<lparr>dayNumber = 19737, hourOfDay = 0\<rparr>
              = dayNumber \<lparr>dayNumber = 19737, hourOfDay = 11\<rparr>"
    by simp
  have free: "isSlotAvailable exampleNewDate (scenarioB\<lparr>bookings := []\<rparr>)
                (exampleNewDate ''2024-01-15'') (Some 12)"
    by code_simp
  from booking_blocks_covered_hours [OF h1 h2 h3 h4 h5] free show ?thesis
    by simp
qed

text \<open>
  C3, the failing input. The late booking covers the hours 22 and 23 of Monday
  2024-01-15 and is in the list of bookings, yet the resolver reports both hours
  available: the end hour read by \<^verbatim>\<open>getHours\<close> is 0, so neither \<open>22 < 0\<close> nor the
  end-hour rule holds.
\<close>

theorem late_booking_hours_stay_available:
  "lateBooking \<in> set (bookings scenarioLate)
   \<and> bookingCoversHour lateNewDate (lateNewDate ''2024-01-15'') 22 lateBooking
   \<and> bookingCoversHour lateNewDate (lateNewDate ''2024-01-15'') 23 lateBooking
   \<and> isSlotAvailable lateNewDate scenarioLate (lateNewDate ''2024-01-15'') (Some 22)
   \<and> isSlotAvailable lateNewDate scenarioLate (lateNewDate ''2024-01-15'') (Some 23)"
proof -
  have m: "lateBooking \<in> set (bookings scenarioLate)"
    by (simp add: scenarioLate_def)
  have c: "bookingCoversHour lateNewDate (lateNewDate ''2024-01-15'') 22 lateBooking"
          "bookingCoversHour lateNewDate (lateNewDate ''2024-01-15'') 23 lateBooking"
    by code_simp+
  have a: "isSlotAvailable lateNewDate scenarioLate (lateNewDate ''2024-01-15'') (Some 22)"
          "isSlotAvailable lateNewDate scenarioLate (lateNewDate ''2024-01-15'') (Some 23)"
    by code_simp+
  from m c a show ?thesis by simp
qed

text \<open>
  C7 (as the code has it). The resolver is a total function to \<open>bool\<close>. It answers
  \<open>False\<close> when the booking details are missing, the weekly schedule is missing, the date
  is invalid, the schedule has no entry for the weekday, or that entry has no slot list.
  The list of bookings is never missing: it is empty until a fetch succeeds, and with an
  empty list the answer is decided by the schedule alone.
\<close>

theorem resolver_fails_closed_on_schedule:
  "(bookingDetails st = None \<longrightarrow> \<not> isSlotAvailable newDate st d hour)
   \<and> (activeSchedule st = None \<longrightarrow> \<not> isSlotAvailable newDate st d hour)
   \<and> (getDay d = None \<longrightarrow> \<not> isSlotAvailable newDate st d hour)
   \<and> (\<forall>sched k. activeSchedule st = Some sched \<and> getDay d = Some k \<and> sched k = None
         \<longrightarrow> \<not> isSlotAvailable newDate st d hour)
   \<and> (\<forall>sched k day. activeSchedule st = Some sched \<and> getDay d = Some k \<and> sched k = Some day
           \<and> slots day = None
         \<longrightarrow> \<not> isSlotAvailable newDate st d hour)
   \<and> (\<forall>sched k day sl. bookingDetails st \<noteq> None \<and> activeSchedule st = Some sched
           \<and> getDay d = Some k \<and> sched k = Some day \<and> slots day = Some sl \<and> bookings st = []
         \<longrightarrow> isSlotAvailable newDate st d hour = list_ex (slotCovers hour) sl)"
  by (auto simp: isSlotAvailable_def Let_def split: option.splits)

theorem resolver_fails_closed_on_schedule_witness:
  "\<not> isSlotAvailable exampleNewDate initialState (exampleNewDate ''2024-01-15'') (Some 10)
   \<and> \<not> isSlotAvailable exampleNewDate scenarioNoSchedule (exampleNewDate ''2024-01-15'') (Some 10)
   \<and> \<not> isSlotAvailable exampleNewDate scenarioA (exampleNewDate ''not a date'') (Some 10)
   \<and> \<not> isSlotAvailable exampleNewDate scenarioA (Some \<lparr>dayNumber = 19738, hourOfDay = 0\<rparr>) (Some 10)
   \<and> \<not> isSlotAvailable exampleNewDate (scenarioA\<lparr>activeSchedule := Some (Map.empty(1 \<mapsto> \<lparr>slots = None\<rparr>))\<rparr>)
         (exampleNewDate ''2024-01-15'') (Some 10)
   \<and> isSlotAvailable exampleNewDate scenarioBookingsFailed (exampleNewDate ''2024-01-15'') (Some 10)"
proof -
  have a1: "bookingDetails initialState = None"
    by (simp add: initialState_def)
  have a2: "activeSchedule scenarioNoSchedule = None"
    by (simp add: scenarioNoSchedule_def loadFromUrl_def initialState_def)
  have a3: "getDay (exampleNewDate ''not a date'') = None"
    by (simp add: exampleNewDate_def getDay_def)
  have a4: "activeSchedule scenarioA = Some mondaySchedule
            \<and> getDay (Some \<lparr>dayNumber = 19738, hourOfDay = 0\<rparr>) = Some 2 \<and> mondaySchedule 2 = None"
    by (simp add: scenarioA_def getDay_def mondaySchedule_def)
  have a5: "activeSchedule (scenarioA\<lparr>activeSchedule := Some (Map.empty(1 \<mapsto> \<lparr>slots = None\<rparr>))\<rparr>)
              = Some (Map.empty(1 \<mapsto> \<lparr>slots = None\<rparr>))
            \<and> getDay (exampleNewDate ''2024-01-15'') = Some 1
            \<and> (Map.empty(1 \<mapsto> \<lparr>slots = None\<rparr>)) (1::int) = Some \<lparr>slots = None\<rparr>
            \<and> slots \<lparr>slots = None\<rparr> = None"
    by (simp add: getDay_def exampleNewDate_def)
  have a6: "bookingDetails scenarioBookingsFailed \<noteq> None
            \<and> activeSchedule scenarioBookingsFailed = Some mondaySchedule
            \<and> getDay (exampleNewDate ''2024-01-15'') = Some 1
            \<and> mondaySchedule 1 = Some \<lparr>slots = Some [\<lparr>slotStart = ''09:00'', slotEnd = ''17:00''\<rparr>]\<rparr>
            \<and> slots \<lparr>slots = Some [\<lparr>slotStart = ''09:00'', slotEnd = ''17:00''\<rparr>]\<rparr>
                 = Some [\<lparr>slotStart = ''09:00'', slotEnd = ''17:00''\<rparr>]
            \<and> bookings scenarioBookingsFailed = []"
    by (simp add: scenarioBookingsFailed_def bookingsFetched_def scheduleFetched_def
        loadFromUrl_def initialState_def getDay_def exampleNewDate_def mondaySchedule_def)
  have cov: "list_ex (slotCovers (Some 10)) [\<lparr>slotStart = ''09:00'', slotEnd = ''17:00''\<rparr>]"
    by code_simp
  have c1: "\<not> isSlotAvailable exampleNewDate (initialState) (exampleNewDate ''2024-01-15'') (Some 10)"
    using resolver_fails_closed_on_schedule
            [where st = "initialState" and newDate = exampleNewDate
               and d = "exampleNewDate ''2024-01-15''" and hour = "Some 10"]
          a1
    by blast
  have c2: "\<not> isSlotAvailable exampleNewDate (scenarioNoSchedule) (exampleNewDate ''2024-01-15'') (Some 10)"
    using resolver_fails_closed_on_schedule
            [where st = "scenarioNoSchedule" and newDate = exampleNewDate
               and d = "exampleNewDate ''2024-01-15''" and hour = "Some 10"]
          a2
    by blast
  have c3: "\<not> isSlotAvailable exampleNewDate (scenarioA) (exampleNewDate ''not a date'') (Some 10)"
    using resolver_fails_closed_on_schedule
            [where st = "scenarioA" and newDate = exampleNewDate
               and d = "exampleNewDate ''not a date''" and hour = "Some 10"]
          a3
    by blast
  have c4: "\<not> isSlotAvailable exampleNewDate (scenarioA) (Some \<lparr>dayNumber = 19738, hourOfDay = 0\<rparr>) (Some 10)"
    using resolver_fails_closed_on_schedule
            [where st = "scenarioA" and newDate = exampleNewDate
               and d = "Some \<lparr>dayNumber = 19738, hourOfDay = 0\<rparr>" and hour = "Some 10"]
          a4
    by blast
  have c5: "\<not> isSlotAvailable exampleNewDate (scenarioA\<lparr>activeSchedule := Some (Map.empty(1 \<mapsto> \<lparr>slots = None\<rparr>))\<rparr>) (exampleNewDate ''2024-01-15'') (Some 10)"
    using resolver_fails_closed_on_schedule
            [where st = "scenarioA\<lparr>activeSchedule := Some (Map.empty(1 \<mapsto> \<lparr>slots = None\<rparr>))\<rparr>" and newDate = exampleNewDate
               and d = "exampleNewDate ''2024-01-15''" and hour = "Some 10"]
          a5
    by blast
  have c6: "isSlotAvailable exampleNewDate (scenarioBookingsFailed) (exampleNewDate ''2024-01-15'') (Some 10)"
    using resolver_fails_closed_on_schedule
            [where st = "scenarioBookingsFailed" and newDate = exampleNewDate
               and d = "exampleNewDate ''2024-01-15''" and hour = "Some 10"]
          a6 cov
    by blast
  from c1 c2 c3 c4 c5 c6 show ?thesis by simp
qed

text \<open>
  C7, the counterexample. When the fetch of the bookings fails the list stays empty, and
  the resolver reports 10:00 on the scheduled Monday as available: missing booking data
  does not close the slot.
\<close>

theorem bookings_unavailable_counterexample:
  "bookings scenarioBookingsFailed = []
   \<and> isSlotAvailable exampleNewDate scenarioBookingsFailed (exampleNewDate ''2024-01-15'') (Some 10)"
  by code_simp

section \<open>The slot option generator\<close>

text \<open>
  C6. When the details are loaded and the requested start and end parse to the hours \<open>s\<close>
  and \<open>e\<close>, the options are the labels of the hours of \<open>[s, e)\<close> that the resolver reports
  available on the requested date, in ascending order; the label of an hour below 100 is
  its two decimal digits followed by \<^verbatim>\<open>:00\<close>.
\<close>

theorem generateTimeOptions_window:
  assumes "bookingDetails st = Some bd"
    and "parseInt (part0 (split (CHR '':'') (startTime bd))) = Some s"
    and "parseInt (part0 (split (CHR '':'') (endTime bd))) = Some e"
  shows "generateTimeOptions newDate st
           = map (\<lambda>h. hourLabel (Some h))
               (filter (\<lambda>h. isSlotAvailable newDate st (newDate (date bd)) (Some h)) [s .. e - 1])
         \<and> (\<forall>h. 0 \<le> h \<and> h < 100 \<longrightarrow>
               hourLabel (Some h)
                 = [char_of (48 + nat h div 10), char_of (48 + nat h mod 10),
                    CHR '':'', CHR ''0'', CHR ''0''])"
proof -
  have "generateTimeOptions newDate st
          = filter (\<lambda>hour. isSlotAvailable newDate st (newDate (date bd)) (parseInt hour))
              (map (\<lambda>h. hourLabel (Some h)) [s .. e - 1])"
    using assms(1) options_of_window [OF assms(2,3)]
    by (simp add: generateTimeOptions_def Let_def)
  also have "\<dots> = map (\<lambda>h. hourLabel (Some h))
               (filter (\<lambda>h. isSlotAvailable newDate st (newDate (date bd)) (Some h)) [s .. e - 1])"
    by (simp add: filter_map comp_def parseInt_hourLabel)
  finally show ?thesis
    using hourLabel_two_digits by simp
qed

theorem generateTimeOptions_window_witness:
  "generateTimeOptions exampleNewDate scenarioA = [''10:00'', ''11:00'', ''12:00'']"
proof -
  have h1: "bookingDetails scenarioA = Some exampleDetails"
    by (simp add: scenarioA_def)
  have h2: "parseInt (part0 (split (CHR '':'') (startTime exampleDetails))) = Some 10"
    by code_simp
  have h3: "parseInt (part0 (split (CHR '':'') (endTime exampleDetails))) = Some 13"
    by code_simp
  have span: "[10 .. 13 - 1] = [10, 11, 12 :: int]"
    by (simp add: upto.simps)
  have av: "isSlotAvailable exampleNewDate scenarioA (exampleNewDate (date exampleDetails)) (Some 10)"
           "isSlotAvailable exampleNewDate scenarioA (exampleNewDate (date exampleDetails)) (Some 11)"
           "isSlotAvailable exampleNewDate scenarioA (exampleNewDate (date exampleDetails)) (Some 12)"
    by code_simp+
  have lab: "hourLabel (Some 10) = ''10:00''" "hourLabel (Some 11) = ''11:00''"
            "hourLabel (Some 12) = ''12:00''"
    by code_simp+
  from generateTimeOptions_window [OF h1 h2 h3, of exampleNewDate] show ?thesis
    by (simp add: span av lab)
qed

section \<open>The initial selection\<close>

text \<open>
  C10. Loading the page with non-empty start and end parameters that parse to the hours
  \<open>s\<close> and \<open>e\<close> sets the selection to the labels of all hours of \<open>[s, e)\<close>, whatever
  schedule and bookings the state holds: the resolver is not consulted. In scenario B the
  initial selection 10:00, 11:00, 12:00 holds two hours that the booking blocks.
\<close>

theorem initial_selection_unfiltered:
  "(startTime details \<noteq> [] \<and> endTime details \<noteq> []
      \<and> parseInt (part0 (split (CHR '':'') (startTime details))) = Some s
      \<and> parseInt (part0 (split (CHR '':'') (endTime details))) = Some e
    \<longrightarrow> selectedHours (loadFromUrl details st) = map (\<lambda>h. hourLabel (Some h)) [s .. e - 1])
   \<and> selectedHours (loadFromUrl exampleDetails scenarioB) = [''10:00'', ''11:00'', ''12:00'']
   \<and> \<not> isSlotAvailable exampleNewDate (loadFromUrl exampleDetails scenarioB)
         (exampleNewDate (date exampleDetails)) (parseInt ''11:00'')
   \<and> \<not> isSlotAvailable exampleNewDate (loadFromUrl exampleDetails scenarioA\<lparr>activeSchedule := None\<rparr>)
         (exampleNewDate (date exampleDetails)) (parseInt ''10:00'')"
proof -
  have general: "startTime details \<noteq> [] \<and> endTime details \<noteq> []
      \<and> parseInt (part0 (split (CHR '':'') (startTime details))) = Some s
      \<and> parseInt (part0 (split (CHR '':'') (endTime details))) = Some e
    \<longrightarrow> selectedHours (loadFromUrl details st) = map (\<lambda>h. hourLabel (Some h)) [s .. e - 1]"
    using options_of_window [of "startTime details" s "endTime details" e]
    by (simp add: loadFromUrl_def initialSelectedHours_def Let_def)
  have ex1: "selectedHours (loadFromUrl exampleDetails scenarioB) = [''10:00'', ''11:00'', ''12:00'']"
    by code_simp
  have ex2: "\<not> isSlotAvailable exampleNewDate (loadFromUrl exampleDetails scenarioB)
         (exampleNewDate (date exampleDetails)) (parseInt ''11:00'')"
    by code_simp
  have ex3: "\<not> isSlotAvailable exampleNewDate (loadFromUrl exampleDetails scenarioA\<lparr>activeSchedule := None\<rparr>)
         (exampleNewDate (date exampleDetails)) (parseInt ''10:00'')"
    by code_simp
  from general ex1 ex2 ex3 show ?thesis by blast
qed

theorem initial_selection_unfiltered_witness:
  "selectedHours (loadFromUrl exampleDetails initialState) = [''10:00'', ''11:00'', ''12:00'']
   \<and> \<not> isSlotAvailable exampleNewDate (loadFromUrl exampleDetails initialState)
         (exampleNewDate (date exampleDetails)) (Some 10)"
proof -
  have h: "startTime exampleDetails \<noteq> [] \<and> endTime exampleDetails \<noteq> []
      \<and> parseInt (part0 (split (CHR '':'') (startTime exampleDetails))) = Some 10
      \<and> parseInt (part0 (split (CHR '':'') (endTime exampleDetails))) = Some 13"
    by code_simp
  have span: "[10 .. 13 - 1] = [10, 11, 12 :: int]"
    by (simp add: upto.simps)
  have lab: "hourLabel (Some 10) = ''10:00''" "hourLabel (Some 11) = ''11:00''"
            "hourLabel (Some 12) = ''12:00''"
    by code_simp+
  have un: "\<not> isSlotAvailable exampleNewDate (loadFromUrl exampleDetails initialState)
         (exampleNewDate (date exampleDetails)) (Some 10)"
    by code_simp
  from initial_selection_unfiltered [of exampleDetails 10 13 initialState] h
  have "selectedHours (loadFromUrl exampleDetails initialState)
          = map (\<lambda>h. hourLabel (Some h)) [10 .. 13 - 1]"
    by blast
  with un show ?thesis by (simp add: span lab)
qed

section \<open>Sorting hour labels\<close>

lemma char_of_digit_less:
  "a < 10 \<Longrightarrow> b < 10 \<Longrightarrow> char_of (48 + a :: nat) < char_of (48 + b :: nat) \<longleftrightarrow> a < b"
  by (simp add: less_char_def)

lemma char_of_digit_eq:
  "a < 10 \<Longrightarrow> b < 10 \<Longrightarrow> char_of (48 + a :: nat) = char_of (48 + b :: nat) \<longleftrightarrow> a = b"
proof
  assume "a < 10" "b < 10" "char_of (48 + a) = char_of (48 + b)"
  then have "(of_char (char_of (48 + a)) :: nat) = of_char (char_of (48 + b))" by simp
  with \<open>a < 10\<close> \<open>b < 10\<close> show "a = b" by simp
qed simp

lemma digits_order:
  fixes qa ra qc rc :: nat
  assumes "ra < 10" "rc < 10"
  shows "(qa < qc \<or> (qa = qc \<and> (ra < rc \<or> ra = rc))) \<longleftrightarrow> 10 * qa + ra \<le> 10 * qc + rc"
  using assms by linarith

lemma two_digit_order:
  fixes a c :: nat
  shows "(a div 10 < c div 10 \<or> (a div 10 = c div 10 \<and> (a mod 10 < c mod 10 \<or> a mod 10 = c mod 10)))
           \<longleftrightarrow> a \<le> c"
proof -
  have "a = 10 * (a div 10) + a mod 10" "c = 10 * (c div 10) + c mod 10" by simp_all
  moreover have "a mod 10 < 10" "c mod 10 < 10" by simp_all
  ultimately show ?thesis
    using digits_order [of "a mod 10" "c mod 10" "a div 10" "c div 10"] by metis
qed

lemma sorted_le_last:
  fixes xs :: "int list"
  shows "sorted xs \<Longrightarrow> z \<in> set xs \<Longrightarrow> z \<le> last xs"
proof (induction xs)
  case Nil
  then show ?case by simp
next
  case (Cons x xs)
  show ?case
  proof (cases "xs = []")
    case True
    with Cons.prems show ?thesis by simp
  next
    case False
    then have "last xs \<in> set xs" by simp
    with Cons False show ?thesis by fastforce
  qed
qed

lemma hourLabel_le_iff:
  assumes "0 \<le> m" "m < 100" "0 \<le> n" "n < 100"
  shows "hourLabel (Some m) \<le> hourLabel (Some n) \<longleftrightarrow> m \<le> n"
proof -
  let ?a = "nat m div 10" and ?b = "nat m mod 10" and ?c = "nat n div 10" and ?d = "nat n mod 10"
  have bounds: "?a < 10" "?b < 10" "?c < 10" "?d < 10"
    using assms by simp_all
  have lm: "hourLabel (Some m) = [char_of (48 + ?a), char_of (48 + ?b), CHR '':'', CHR ''0'', CHR ''0'']"
    using assms by (rule_tac hourLabel_two_digits)
  have ln: "hourLabel (Some n) = [char_of (48 + ?c), char_of (48 + ?d), CHR '':'', CHR ''0'', CHR ''0'']"
    using assms by (rule_tac hourLabel_two_digits)
  have "hourLabel (Some m) \<le> hourLabel (Some n) \<longleftrightarrow> ?a < ?c \<or> (?a = ?c \<and> (?b < ?d \<or> ?b = ?d))"
    unfolding lm ln using bounds
    by (simp add: Cons_le_Cons char_of_digit_less char_of_digit_eq)
  also have "\<dots> \<longleftrightarrow> nat m \<le> nat n"
    by (rule two_digit_order)
  also have "\<dots> \<longleftrightarrow> m \<le> n"
    using assms by linarith
  finally show ?thesis .
qed

lemma hourLabel_inj:
  assumes "hourLabel (Some m) = hourLabel (Some n)"
  shows "m = n"
proof -
  have "parseInt (hourLabel (Some m)) = parseInt (hourLabel (Some n))"
    by (simp only: assms)
  then show ?thesis
    by (simp only: parseInt_hourLabel option.inject)
qed

lemma insort_hourLabel:
  assumes "0 \<le> h" "h < 100" "hoursInRange hs"
  shows "insort (hourLabel (Some h)) (map (\<lambda>k. hourLabel (Some k)) hs)
           = map (\<lambda>k. hourLabel (Some k)) (insort h hs)"
  using assms(3)
proof (induction hs)
  case Nil
  then show ?case by simp
next
  case (Cons y ys)
  then have "0 \<le> y" "y < 100" "hoursInRange ys"
    by (simp_all add: hoursInRange_def)
  with Cons.IH assms(1,2) show ?case
    by (simp add: hourLabel_le_iff)
qed

lemma hoursInRange_insort:
  "hoursInRange (insort h hs) \<longleftrightarrow> (0 \<le> h \<and> h < 100) \<and> hoursInRange hs"
  by (auto simp: hoursInRange_def list_all_iff set_insort_key)

lemma hoursInRange_sort: "hoursInRange (sort hs) \<longleftrightarrow> hoursInRange hs"
  by (simp add: hoursInRange_def list_all_iff)

lemma sort_hourLabel:
  "hoursInRange hs \<Longrightarrow>
     sort (map (\<lambda>k. hourLabel (Some k)) hs) = map (\<lambda>k. hourLabel (Some k)) (sort hs)"
proof (induction hs)
  case Nil
  then show ?case by simp
next
  case (Cons y ys)
  then have y: "0 \<le> y" "y < 100" and ys: "hoursInRange ys"
    by (simp_all add: hoursInRange_def)
  from ys have "hoursInRange (sort ys)" by (simp add: hoursInRange_sort)
  with Cons.IH ys y show ?case
    by (simp add: sort_key_simps insort_hourLabel)
qed

lemma hd_sort_Min:
  fixes xs :: "int list"
  assumes "xs \<noteq> []"
  shows "hd (sort xs) = Min (set xs)"
proof -
  from assms obtain y ys where s: "sort xs = y # ys"
    by (cases "sort xs") (auto dest: arg_cong [where f = length])
  have "sorted (y # ys)" using sorted_sort [where xs = xs] s by simp
  then have "\<forall>z\<in>set (y # ys). y \<le> z" by auto
  moreover have "set (y # ys) = set xs"
  proof -
    have "set (sort xs) = set xs" by simp
    with s show ?thesis by simp
  qed
  ultimately have "Min (set xs) = y"
    by (intro Min_eqI) auto
  with s show ?thesis by simp
qed

lemma last_sort_Max:
  fixes xs :: "int list"
  assumes "xs \<noteq> []"
  shows "last (sort xs) = Max (set xs)"
proof -
  have ne: "sort xs \<noteq> []" using assms by (auto dest: arg_cong [where f = length])
  have "\<forall>z\<in>set (sort xs). z \<le> last (sort xs)"
    using sorted_le_last [OF sorted_sort] by blast
  moreover have "last (sort xs) \<in> set xs"
    using last_in_set [OF ne] by simp
  ultimately have "Max (set xs) = last (sort xs)"
    by (intro Max_eqI) auto
  then show ?thesis by simp
qed

lemma filterE_total:
  "(\<And>x. p x = Inr (q x)) \<Longrightarrow> filterE p xs = Inr (filter q xs)"
  by (induction xs) simp_all

section \<open>The selection toggler\<close>

lemma handleHourSelection_remove:
  "hour \<in> set prevSelected \<Longrightarrow>
     handleHourSelection newDate st prevSelected hour = Inr (filter (\<lambda>h. h \<noteq> hour) prevSelected)"
  by (simp add: handleHourSelection_def)

lemma handleHourSelection_first:
  "handleHourSelection newDate st [] hour = Inr [hour]"
  by (simp add: handleHourSelection_def)

lemma span_labels:
  "arrayFrom (num_add (num_sub (Some mx) (Some mn)) (Some 1))
     (\<lambda>i. hourLabel (num_add (Some mn) (Some (int i))))
   = map (\<lambda>k. hourLabel (Some k)) [mn .. mx]"
  using arrayFrom_span [of "mx + 1" mn] by (simp add: num_add_def num_sub_def algebra_simps)

lemma filterE_available:
  assumes "bookingDetails st = Some bd"
  shows "filterE (availableCallback newDate st) (map (\<lambda>k. hourLabel (Some k)) ks)
           = Inr (map (\<lambda>k. hourLabel (Some k))
                    (filter (\<lambda>k. isSlotAvailable newDate st (newDate (date bd)) (Some k)) ks))"
proof -
  have "availableCallback newDate st x
          = Inr (isSlotAvailable newDate st (newDate (date bd)) (parseInt x))" for x
    using assms by (simp add: availableCallback_def)
  then have "filterE (availableCallback newDate st) (map (\<lambda>k. hourLabel (Some k)) ks)
          = Inr (filter (\<lambda>x. isSlotAvailable newDate st (newDate (date bd)) (parseInt x))
                   (map (\<lambda>k. hourLabel (Some k)) ks))"
    by (rule filterE_total)
  then show ?thesis
    by (simp add: filter_map comp_def parseInt_hourLabel)
qed

lemma handleHourSelection_add_span:
  assumes "bookingDetails st = Some bd"
    and "hoursInRange (h # hs)"
    and "hs \<noteq> []"
    and "h \<notin> set hs"
  shows "handleHourSelection newDate st (map (\<lambda>k. hourLabel (Some k)) hs) (hourLabel (Some h))
           = Inr (map (\<lambda>k. hourLabel (Some k))
                    (filter (\<lambda>k. isSlotAvailable newDate st (newDate (date bd)) (Some k))
                       [Min (set (h # hs)) .. Max (set (h # hs))]))"
proof -
  let ?L = "\<lambda>k. hourLabel (Some k)"
  let ?all = "hs @ [h]"
  have notin: "?L h \<notin> set (map ?L hs)"
    using assms(4) hourLabel_inj by auto
  have range: "hoursInRange ?all"
    using assms(2) by (simp add: hoursInRange_def)
  have sorted: "sort (map ?L hs @ [?L h]) = map ?L (sort ?all)"
    using sort_hourLabel [OF range] by simp
  have ne: "sort ?all \<noteq> []"
    by (auto dest: arg_cong [where f = length])
  have len: "length (map ?L (sort ?all)) > 1"
    using assms(3) by (cases hs) simp_all
  have sets: "set ?all = set (h # hs)" by auto
  have first: "parseInt (hd (map ?L (sort ?all))) = Some (Min (set (h # hs)))"
    using ne hd_sort_Min [of ?all] sets by (simp add: hd_map parseInt_hourLabel)
  have final: "parseInt (last (map ?L (sort ?all))) = Some (Max (set (h # hs)))"
    using ne last_sort_Max [of ?all] sets by (simp add: last_map parseInt_hourLabel)
  have "handleHourSelection newDate st (map ?L hs) (?L h)
          = filterE (availableCallback newDate st)
              (arrayFrom (num_add (num_sub (Some (Max (set (h # hs)))) (Some (Min (set (h # hs))))) (Some 1))
                 (\<lambda>i. hourLabel (num_add (Some (Min (set (h # hs)))) (Some (int i)))))"
    using notin len
    unfolding handleHourSelection_def Let_def sorted first final by simp
  then show ?thesis
    by (simp only: span_labels filterE_available [OF assms(1)])
qed

text \<open>
  C1 (as the code has it). Toggling an hour into the empty selection yields that hour
  alone, whether or not it is available. Toggling a new hour into a non-empty selection of
  hour labels, with the booking details loaded, yields the labels of exactly those hours
  between the minimum and the maximum of the selected hours and the new one that the
  resolver reports available, in ascending order.
\<close>

theorem toggle_add_is_filtered_span:
  "handleHourSelection newDate st [] hour = Inr [hour]
   \<and> (bookingDetails st = Some bd \<and> hoursInRange (h # hs) \<and> hs \<noteq> [] \<and> h \<notin> set hs \<longrightarrow>
        handleHourSelection newDate st (map (\<lambda>k. hourLabel (Some k)) hs) (hourLabel (Some h))
          = Inr (map (\<lambda>k. hourLabel (Some k))
                   (filter (\<lambda>k. isSlotAvailable newDate st (newDate (date bd)) (Some k))
                      [Min (set (h # hs)) .. Max (set (h # hs))])))"
  using handleHourSelection_first handleHourSelection_add_span by blast

theorem toggle_add_is_filtered_span_witness:
  "handleHourSelection exampleNewDate scenarioD [''10:00''] ''12:00'' = Inr [''10:00'', ''12:00'']
   \<and> \<not> isSlotAvailable exampleNewDate scenarioD (exampleNewDate (date exampleDetails)) (Some 11)"
proof -
  have h: "bookingDetails scenarioD = Some exampleDetails \<and> hoursInRange (12 # [10])
            \<and> [10 :: int] \<noteq> [] \<and> (12 :: int) \<notin> set [10]"
    by (simp add: scenarioD_def scenarioA_def hoursInRange_def)
  have span: "[Min (set (12 # [10 :: int])) .. Max (set (12 # [10]))] = [10, 11, 12]"
    by (simp add: upto.simps)
  have av: "isSlotAvailable exampleNewDate scenarioD (exampleNewDate (date exampleDetails)) (Some 10)"
           "\<not> isSlotAvailable exampleNewDate scenarioD (exampleNewDate (date exampleDetails)) (Some 11)"
           "isSlotAvailable exampleNewDate scenarioD (exampleNewDate (date exampleDetails)) (Some 12)"
    by code_simp+
  have lab: "hourLabel (Some 10) = ''10:00''" "hourLabel (Some 12) = ''12:00''"
    by code_simp+
  from toggle_add_is_filtered_span
         [where st = scenarioD and bd = exampleDetails and h = 12 and hs = "[10]"
            and newDate = exampleNewDate] h
  have "handleHourSelection exampleNewDate scenarioD
          (map (\<lambda>k. hourLabel (Some k)) [10]) (hourLabel (Some 12))
        = Inr (map (\<lambda>k. hourLabel (Some k))
                 (filter (\<lambda>k. isSlotAvailable exampleNewDate scenarioD
                                 (exampleNewDate (date exampleDetails)) (Some k))
                    [Min (set (12 # [10])) .. Max (set (12 # [10]))]))"
    by blast
  then show ?thesis
    unfolding span using av by (simp add: lab)
qed

text \<open>
  C1, the counterexample. In scenario D the hour 11:00 is outside the schedule, yet
  toggling it into the empty selection selects it: the result is not the span filtered
  through the resolver.
\<close>

theorem toggle_first_hour_unfiltered_counterexample:
  "handleHourSelection exampleNewDate scenarioD [] ''11:00'' = Inr [''11:00'']
   \<and> \<not> isSlotAvailable exampleNewDate scenarioD (exampleNewDate (date exampleDetails))
         (parseInt ''11:00'')"
  by code_simp

lemma hoursInRange_set: "hoursInRange hs \<longleftrightarrow> (\<forall>k\<in>set hs. 0 \<le> k \<and> k < 100)"
  by (simp add: hoursInRange_def list_all_iff)

lemma sorted_hourLabels:
  assumes "hoursInRange ks" "sorted ks"
  shows "sorted (map (\<lambda>k. hourLabel (Some k)) ks)"
proof -
  have "sorted_wrt (\<lambda>x y. hourLabel (Some x) \<le> hourLabel (Some y)) ks"
  proof (rule sorted_wrt_mono_rel [of ks "(\<le>)"])
    fix x y
    assume "x \<in> set ks" "y \<in> set ks" "x \<le> y"
    with assms(1) show "hourLabel (Some x) \<le> hourLabel (Some y)"
      by (simp add: hoursInRange_set hourLabel_le_iff)
  next
    show "sorted_wrt (\<le>) ks" using assms(2) by simp
  qed
  then show ?thesis by (simp add: sorted_map)
qed

lemma distinct_hourLabels:
  "distinct ks \<Longrightarrow> distinct (map (\<lambda>k. hourLabel (Some k)) ks)"
  by (simp add: distinct_map inj_on_def) (blast dest: hourLabel_inj)

lemma consecutiveHours_labels_Cons:
  "consecutiveHours (map (\<lambda>k. hourLabel (Some k)) (a # ks))
     \<longleftrightarrow> (case ks of [] \<Rightarrow> True
          | b # r \<Rightarrow> b = a + 1 \<and> consecutiveHours (map (\<lambda>k. hourLabel (Some k)) (b # r)))"
  by (cases ks) (simp_all add: parseInt_hourLabel num_eq_def num_add_def)

lemma consecutiveHours_upto:
  "consecutiveHours (map (\<lambda>k. hourLabel (Some k)) [a .. b])"
proof (induction "nat (b - a + 1)" arbitrary: a)
  case 0
  then have "[a .. b] = []" by simp
  then show ?case by simp
next
  case (Suc n)
  then have ab: "a \<le> b" by simp
  then have step: "[a .. b] = a # [a + 1 .. b]" by (simp add: upto_rec1)
  show ?case
  proof (cases "a + 1 \<le> b")
    case True
    then have next_step: "[a + 1 .. b] = (a + 1) # [a + 1 + 1 .. b]" by (simp add: upto_rec1)
    have "n = nat (b - (a + 1) + 1)" using Suc.hyps(2) by simp
    then have "consecutiveHours (map (\<lambda>k. hourLabel (Some k)) [a + 1 .. b])"
      by (rule Suc.hyps(1))
    then show ?thesis
      unfolding step by (subst consecutiveHours_labels_Cons) (simp add: next_step)
  next
    case False
    then have "[a + 1 .. b] = []" by simp
    then show ?thesis unfolding step by simp
  qed
qed

lemma allAvailable_filtered:
  assumes "bookingDetails st = Some bd"
  shows "allAvailable newDate st
           (map (\<lambda>k. hourLabel (Some k))
              (filter (\<lambda>k. isSlotAvailable newDate st (newDate (date bd)) (Some k)) ks))"
  using assms by (simp add: allAvailable_def list_all_iff parseInt_hourLabel)

lemma Min_Max_inRange:
  assumes "hoursInRange (h # hs)"
  shows "0 \<le> Min (set (h # hs)) \<and> Max (set (h # hs)) < 100"
proof -
  have "Min (set (h # hs)) \<in> set (h # hs)" "Max (set (h # hs)) \<in> set (h # hs)"
    by (rule Min_in, simp, simp, rule Max_in, simp, simp)
  with assms show ?thesis
    unfolding hoursInRange_set by blast
qed

text \<open>
  C2 (as the code has it). After a new hour is toggled into a non-empty selection of hour
  labels, every selected hour is available, the selection is ascending without
  duplicates and lies within the span between the minimum and the maximum; it is a run of
  consecutive hours when every hour of the span is available. Removing a selected hour
  drops that hour and recomputes nothing.
\<close>

theorem toggle_add_available_within_span:
  "(bookingDetails st = Some bd \<and> hoursInRange (h # hs) \<and> hs \<noteq> [] \<and> h \<notin> set hs
      \<and> handleHourSelection newDate st (map (\<lambda>k. hourLabel (Some k)) hs) (hourLabel (Some h))
            = Inr sel
    \<longrightarrow> allAvailable newDate st sel \<and> sorted sel \<and> distinct sel
        \<and> set sel \<subseteq> (\<lambda>k. hourLabel (Some k)) ` {Min (set (h # hs)) .. Max (set (h # hs))}
        \<and> ((\<forall>k\<in>{Min (set (h # hs)) .. Max (set (h # hs))}.
               isSlotAvailable newDate st (newDate (date bd)) (Some k))
            \<longrightarrow> consecutiveHours sel))
   \<and> (hour \<in> set prevSelected \<longrightarrow>
        handleHourSelection newDate st prevSelected hour
          = Inr (filter (\<lambda>x. x \<noteq> hour) prevSelected))"
proof -
  let ?L = "\<lambda>k. hourLabel (Some k)"
  let ?av = "\<lambda>k. isSlotAvailable newDate st (newDate (date bd)) (Some k)"
  let ?mn = "Min (set (h # hs))" and ?mx = "Max (set (h # hs))"
  have add: "allAvailable newDate st sel \<and> sorted sel \<and> distinct sel
        \<and> set sel \<subseteq> ?L ` {?mn .. ?mx}
        \<and> ((\<forall>k\<in>{?mn .. ?mx}. ?av k) \<longrightarrow> consecutiveHours sel)"
    if h: "bookingDetails st = Some bd" "hoursInRange (h # hs)" "hs \<noteq> []" "h \<notin> set hs"
      and res: "handleHourSelection newDate st (map ?L hs) (?L h) = Inr sel"
  proof -
    let ?ks = "filter ?av [?mn .. ?mx]"
    have sel: "sel = map ?L ?ks"
      using handleHourSelection_add_span [OF h, of newDate] res by simp
    have bounds: "0 \<le> ?mn \<and> ?mx < 100"
      by (rule Min_Max_inRange [OF h(2)])
    have "\<forall>k\<in>set ?ks. 0 \<le> k \<and> k < 100"
    proof
      fix k assume "k \<in> set ?ks"
      then have "?mn \<le> k" "k \<le> ?mx" by simp_all
      with bounds show "0 \<le> k \<and> k < 100" by linarith
    qed
    then have range: "hoursInRange ?ks"
      by (simp only: hoursInRange_set)
    have p1: "allAvailable newDate st sel"
      unfolding sel by (rule allAvailable_filtered [OF h(1)])
    have p2: "sorted sel"
      unfolding sel by (rule sorted_hourLabels [OF range]) (simp add: sorted_wrt_filter)
    have p3: "distinct sel"
      unfolding sel by (rule distinct_hourLabels) simp
    have p4: "set sel \<subseteq> ?L ` {?mn .. ?mx}"
      unfolding sel by auto
    have p5: "(\<forall>k\<in>{?mn .. ?mx}. ?av k) \<longrightarrow> consecutiveHours sel"
    proof
      assume "\<forall>k\<in>{?mn .. ?mx}. ?av k"
      then have "?ks = [?mn .. ?mx]" by (simp add: filter_id_conv)
      then show "consecutiveHours sel"
        unfolding sel by (simp only: consecutiveHours_upto)
    qed
    from p1 p2 p3 p4 p5 show ?thesis by blast
  qed
  have remove: "hour \<in> set prevSelected \<longrightarrow>
        handleHourSelection newDate st prevSelected hour
          = Inr (filter (\<lambda>x. x \<noteq> hour) prevSelected)"
    by (simp add: handleHourSelection_remove)
  from add remove show ?thesis by blast
qed

theorem toggle_add_available_within_span_witness:
  "handleHourSelection exampleNewDate scenarioA [''10:00''] ''12:00''
     = Inr [''10:00'', ''11:00'', ''12:00'']
   \<and> allAvailable exampleNewDate scenarioA [''10:00'', ''11:00'', ''12:00'']
   \<and> sorted [''10:00'', ''11:00'', ''12:00'']
   \<and> distinct [''10:00'', ''11:00'', ''12:00'']
   \<and> consecutiveHours [''10:00'', ''11:00'', ''12:00'']
   \<and> handleHourSelection exampleNewDate scenarioA [''10:00'', ''11:00'', ''12:00''] ''11:00''
       = Inr (filter (\<lambda>x. x \<noteq> ''11:00'') [''10:00'', ''11:00'', ''12:00''])"
proof -
  let ?sel = "[''10:00'', ''11:00'', ''12:00'']"
  have lab: "hourLabel (Some 10) = ''10:00''" "hourLabel (Some 12) = ''12:00''"
    by code_simp+
  have res: "handleHourSelection exampleNewDate scenarioA
               (map (\<lambda>k. hourLabel (Some k)) [10]) (hourLabel (Some 12)) = Inr ?sel"
    unfolding list.map lab by code_simp
  have h: "bookingDetails scenarioA = Some exampleDetails \<and> hoursInRange (12 # [10])
            \<and> [10 :: int] \<noteq> [] \<and> (12 :: int) \<notin> set [10]"
    by (simp add: scenarioA_def hoursInRange_def)
  have span: "{Min (set (12 # [10 :: int])) .. Max (set (12 # [10]))} = {10, 11, 12}"
  proof -
    have "{10 .. 12 :: int} = set [10 .. 12]" by (simp only: set_upto)
    also have "\<dots> = {10, 11, 12}" by (simp add: upto.simps)
    finally show ?thesis by simp
  qed
  have av: "\<forall>k\<in>{Min (set (12 # [10 :: int])) .. Max (set (12 # [10]))}.
              isSlotAvailable exampleNewDate scenarioA (exampleNewDate (date exampleDetails)) (Some k)"
    unfolding span
  proof (intro ballI)
    fix k :: int
    assume "k \<in> {10, 11, 12}"
    then consider "k = 10" | "k = 11" | "k = 12" by blast
    then show "isSlotAvailable exampleNewDate scenarioA (exampleNewDate (date exampleDetails)) (Some k)"
    proof cases
      case 1 show ?thesis unfolding 1 by code_simp
    next
      case 2 show ?thesis unfolding 2 by code_simp
    next
      case 3 show ?thesis unfolding 3 by code_simp
    qed
  qed
  have mem: "''11:00'' \<in> set ?sel" by simp
  note inst = toggle_add_available_within_span
               [where st = scenarioA and bd = exampleDetails and h = 12 and hs = "[10]"
                  and newDate = exampleNewDate and sel = ?sel and hour = "''11:00''"
                  and prevSelected = ?sel]
  from inst h res av have "allAvailable exampleNewDate scenarioA ?sel \<and> sorted ?sel
        \<and> distinct ?sel \<and> consecutiveHours ?sel"
    by blast
  moreover from inst mem
  have "handleHourSelection exampleNewDate scenarioA ?sel ''11:00''
          = Inr (filter (\<lambda>x. x \<noteq> ''11:00'') ?sel)"
    by blast
  moreover have "handleHourSelection exampleNewDate scenarioA [''10:00''] ''12:00'' = Inr ?sel"
    using res unfolding list.map lab .
  ultimately show ?thesis by blast
qed

text \<open>
  C2, the counterexample. In scenario A, starting from the empty selection, the toggles
  10:00, 11:00, 12:00 and then 11:00 again leave the selection 10:00, 12:00: two hours
  that are not consecutive. In scenario D the toggles 10:00 and 12:00 give the same
  selection, since 11:00 is dropped from the span.
\<close>

theorem selection_not_contiguous_counterexample:
  "selectedHours scenarioA = []
   \<and> selectionAfter exampleNewDate scenarioA [''10:00'', ''11:00'', ''12:00'', ''11:00'']
       = Inr [''10:00'', ''12:00'']
   \<and> selectionAfter exampleNewDate scenarioD [''10:00'', ''12:00''] = Inr [''10:00'', ''12:00'']
   \<and> 1 < length [''10:00'', ''12:00'']
   \<and> \<not> consecutiveHours [''10:00'', ''12:00'']"
proof -
  have e: "selectedHours scenarioA = []"
    by (simp add: scenarioA_def)
  have a: "selectionAfter exampleNewDate scenarioA [''10:00'', ''11:00'', ''12:00'', ''11:00'']
            = Inr [''10:00'', ''12:00'']"
    by code_simp
  have d: "selectionAfter exampleNewDate scenarioD [''10:00'', ''12:00''] = Inr [''10:00'', ''12:00'']"
    by code_simp
  have c: "\<not> consecutiveHours [''10:00'', ''12:00'']"
    by code_simp
  from e a d c show ?thesis by simp
qed

section \<open>Toggling twice\<close>

lemma handleHourSelection_remove_label:
  assumes "k \<in> set hs"
  shows "handleHourSelection newDate st (map (\<lambda>x. hourLabel (Some x)) hs) (hourLabel (Some k))
           = Inr (map (\<lambda>x. hourLabel (Some x)) (filter (\<lambda>x. x \<noteq> k) hs))"
proof -
  have "hourLabel (Some k) \<in> set (map (\<lambda>x. hourLabel (Some x)) hs)"
    using assms by simp
  moreover have "(hourLabel (Some x) \<noteq> hourLabel (Some k)) = (x \<noteq> k)" for x
    using hourLabel_inj [of x k] by blast
  ultimately show ?thesis
    by (simp add: handleHourSelection_remove filter_map comp_def)
qed

lemma hourLabels_eq_iff:
  "map (\<lambda>x. hourLabel (Some x)) xs = map (\<lambda>x. hourLabel (Some x)) ys \<longleftrightarrow> xs = ys"
proof -
  have "inj (\<lambda>x. hourLabel (Some x))"
    by (rule injI) (rule hourLabel_inj)
  then show ?thesis by (rule inj_map_eq_map)
qed

lemma toggleTwice_empty: "toggleTwice newDate st [] hour = Inr []"
  by (simp add: toggleTwice_def handleHourSelection_def)

lemma toggleTwice_only:
  assumes "k \<in> set hs" "filter (\<lambda>x. x \<noteq> k) hs = []"
  shows "toggleTwice newDate st (map (\<lambda>x. hourLabel (Some x)) hs) (hourLabel (Some k))
           = Inr [hourLabel (Some k)]"
  using assms
  by (simp add: toggleTwice_def handleHourSelection_remove_label handleHourSelection_first)

lemma toggleTwice_selected:
  assumes bd: "bookingDetails st = Some bd"
    and range: "hoursInRange (k # hs)"
    and k: "k \<in> set hs"
    and rest: "filter (\<lambda>x. x \<noteq> k) hs \<noteq> []"
  shows "toggleTwice newDate st (map (\<lambda>x. hourLabel (Some x)) hs) (hourLabel (Some k))
           = Inr (map (\<lambda>x. hourLabel (Some x))
                    (filter (\<lambda>x. isSlotAvailable newDate st (newDate (date bd)) (Some x))
                       [Min (set hs) .. Max (set hs)]))"
proof -
  let ?L = "\<lambda>x. hourLabel (Some x)"
  let ?rest = "filter (\<lambda>x. x \<noteq> k) hs"
  have first: "handleHourSelection newDate st (map ?L hs) (?L k) = Inr (map ?L ?rest)"
    by (rule handleHourSelection_remove_label [OF k])
  have "\<forall>x\<in>set (k # ?rest). 0 \<le> x \<and> x < 100"
    using range by (auto simp: hoursInRange_set)
  then have inr: "hoursInRange (k # ?rest)" by (simp only: hoursInRange_set)
  have notin: "k \<notin> set ?rest" by simp
  have sets: "set (k # ?rest) = set hs" using k by auto
  have second: "handleHourSelection newDate st (map ?L ?rest) (?L k)
        = Inr (map ?L (filter (\<lambda>x. isSlotAvailable newDate st (newDate (date bd)) (Some x))
                        [Min (set hs) .. Max (set hs)]))"
    using handleHourSelection_add_span [OF bd inr rest notin, of newDate]
    unfolding sets .
  show ?thesis
    unfolding toggleTwice_def first using second by simp
qed

lemma Min_le_Max_member:
  fixes k :: int
  shows "Min (set (k # hs)) \<le> k \<and> k \<le> Max (set (k # hs))"
  by simp

lemma first_toggle_new:
  assumes bd: "bookingDetails st = Some bd"
    and range: "hoursInRange (k # hs)"
    and ne: "hs \<noteq> []"
    and new: "k \<notin> set hs"
  shows "handleHourSelection newDate st (map (\<lambda>x. hourLabel (Some x)) hs) (hourLabel (Some k))
           = Inr (map (\<lambda>x. hourLabel (Some x))
                    (filter (\<lambda>x. isSlotAvailable newDate st (newDate (date bd)) (Some x))
                       [Min (set (k # hs)) .. Max (set (k # hs))]))"
  by (rule handleHourSelection_add_span [OF bd range ne new])

lemma toggleTwice_new_available:
  assumes bd: "bookingDetails st = Some bd"
    and range: "hoursInRange (k # hs)"
    and ne: "hs \<noteq> []"
    and new: "k \<notin> set hs"
    and av: "isSlotAvailable newDate st (newDate (date bd)) (Some k)"
  shows "toggleTwice newDate st (map (\<lambda>x. hourLabel (Some x)) hs) (hourLabel (Some k))
           = Inr (map (\<lambda>x. hourLabel (Some x))
                    (filter (\<lambda>x. x \<noteq> k \<and> isSlotAvailable newDate st (newDate (date bd)) (Some x))
                       [Min (set (k # hs)) .. Max (set (k # hs))]))"
proof -
  let ?L = "\<lambda>x. hourLabel (Some x)"
  let ?av = "\<lambda>x. isSlotAvailable newDate st (newDate (date bd)) (Some x)"
  let ?span = "[Min (set (k # hs)) .. Max (set (k # hs))]"
  have first: "handleHourSelection newDate st (map ?L hs) (?L k) = Inr (map ?L (filter ?av ?span))"
    by (rule first_toggle_new [OF bd range ne new])
  have "k \<in> set ?span" using Min_le_Max_member [of k hs] by simp
  then have mem: "k \<in> set (filter ?av ?span)" using av by simp
  have "filter (\<lambda>x. x \<noteq> k) (filter ?av ?span) = filter (\<lambda>x. x \<noteq> k \<and> ?av x) ?span"
    by (simp add: conj_commute)
  then have second: "handleHourSelection newDate st (map ?L (filter ?av ?span)) (?L k)
        = Inr (map ?L (filter (\<lambda>x. x \<noteq> k \<and> ?av x) ?span))"
    using handleHourSelection_remove_label [OF mem, of newDate st] by simp
  show ?thesis
    unfolding toggleTwice_def first using second by simp
qed

lemma toggleTwice_new_unavailable:
  assumes bd: "bookingDetails st = Some bd"
    and range: "hoursInRange (k # hs)"
    and ne: "hs \<noteq> []"
    and new: "k \<notin> set hs"
    and unav: "\<not> isSlotAvailable newDate st (newDate (date bd)) (Some k)"
  shows "toggleTwice newDate st (map (\<lambda>x. hourLabel (Some x)) hs) (hourLabel (Some k))
           = (let r = filter (\<lambda>x. isSlotAvailable newDate st (newDate (date bd)) (Some x))
                        [Min (set (k # hs)) .. Max (set (k # hs))]
              in if r = [] then Inr [hourLabel (Some k)]
                 else Inr (map (\<lambda>x. hourLabel (Some x))
                        (filter (\<lambda>x. isSlotAvailable newDate st (newDate (date bd)) (Some x))
                           [Min (set (k # r)) .. Max (set (k # r))])))"
proof -
  let ?L = "\<lambda>x. hourLabel (Some x)"
  let ?av = "\<lambda>x. isSlotAvailable newDate st (newDate (date bd)) (Some x)"
  let ?r = "filter ?av [Min (set (k # hs)) .. Max (set (k # hs))]"
  have first: "handleHourSelection newDate st (map ?L hs) (?L k) = Inr (map ?L ?r)"
    by (rule first_toggle_new [OF bd range ne new])
  have notin: "k \<notin> set ?r" using unav by simp
  show ?thesis
  proof (cases "?r = []")
    case True
    then show ?thesis
      unfolding toggleTwice_def first Let_def
      by (simp add: handleHourSelection_first)
  next
    case False
    have bounds: "0 \<le> Min (set (k # hs)) \<and> Max (set (k # hs)) < 100"
      by (rule Min_Max_inRange [OF range])
    have "\<forall>x\<in>set (k # ?r). 0 \<le> x \<and> x < 100"
    proof
      fix x assume x: "x \<in> set (k # ?r)"
      show "0 \<le> x \<and> x < 100"
      proof (cases "x = k")
        case True
        with range show ?thesis by (simp add: hoursInRange_set)
      next
        case False
        with x have "Min (set (k # hs)) \<le> x" "x \<le> Max (set (k # hs))" by simp_all
        with bounds show ?thesis by linarith
      qed
    qed
    then have inr: "hoursInRange (k # ?r)" by (simp only: hoursInRange_set)
    have second: "handleHourSelection newDate st (map ?L ?r) (?L k)
        = Inr (map ?L (filter ?av [Min (set (k # ?r)) .. Max (set (k # ?r))]))"
      by (rule handleHourSelection_add_span [OF bd inr False notin])
    show ?thesis
      unfolding toggleTwice_def first Let_def using False second by simp
  qed
qed

text \<open>
  C4 (as the code has it). For selections of hour labels of the hours 0 to 99, with the
  booking details loaded, toggling an hour twice does the following. The empty selection
  is restored. When the hour is the only selected one, the result is that hour alone.
  When the hour is selected among others, the result is the available hours of the span
  of the selection, so the selection is restored exactly when it is that list. When the
  hour is new and available, the result is the available hours of the span of the
  selection and the hour, without the hour, so a non-empty selection is restored exactly
  when it is that list. When the hour is new and unavailable, the first toggle leaves the
  available hours \<open>r\<close> of that span and the second toggles the hour into \<open>r\<close> again.
\<close>

theorem toggle_twice_characterised:
  "toggleTwice newDate st [] hour = Inr []
   \<and> (k \<in> set hs \<and> filter (\<lambda>x. x \<noteq> k) hs = [] \<longrightarrow>
        toggleTwice newDate st (map (\<lambda>x. hourLabel (Some x)) hs) (hourLabel (Some k))
          = Inr [hourLabel (Some k)])
   \<and> (bookingDetails st = Some bd \<and> hoursInRange (k # hs) \<and> k \<in> set hs
        \<and> filter (\<lambda>x. x \<noteq> k) hs \<noteq> [] \<longrightarrow>
        toggleTwice newDate st (map (\<lambda>x. hourLabel (Some x)) hs) (hourLabel (Some k))
          = Inr (map (\<lambda>x. hourLabel (Some x))
                   (filter (\<lambda>x. isSlotAvailable newDate st (newDate (date bd)) (Some x))
                      [Min (set hs) .. Max (set hs)]))
        \<and> (toggleTwice newDate st (map (\<lambda>x. hourLabel (Some x)) hs) (hourLabel (Some k))
              = Inr (map (\<lambda>x. hourLabel (Some x)) hs)
            \<longleftrightarrow> hs = filter (\<lambda>x. isSlotAvailable newDate st (newDate (date bd)) (Some x))
                        [Min (set hs) .. Max (set hs)]))
   \<and> (bookingDetails st = Some bd \<and> hoursInRange (k # hs) \<and> k \<notin> set hs \<and> hs \<noteq> []
        \<and> isSlotAvailable newDate st (newDate (date bd)) (Some k) \<longrightarrow>
        toggleTwice newDate st (map (\<lambda>x. hourLabel (Some x)) hs) (hourLabel (Some k))
          = Inr (map (\<lambda>x. hourLabel (Some x))
                   (filter (\<lambda>x. x \<noteq> k \<and> isSlotAvailable newDate st (newDate (date bd)) (Some x))
                      [Min (set (k # hs)) .. Max (set (k # hs))]))
        \<and> (toggleTwice newDate st (map (\<lambda>x. hourLabel (Some x)) hs) (hourLabel (Some k))
              = Inr (map (\<lambda>x. hourLabel (Some x)) hs)
            \<longleftrightarrow> hs = filter (\<lambda>x. x \<noteq> k \<and> isSlotAvailable newDate st (newDate (date bd)) (Some x))
                        [Min (set (k # hs)) .. Max (set (k # hs))]))
   \<and> (bookingDetails st = Some bd \<and> hoursInRange (k # hs) \<and> k \<notin> set hs \<and> hs \<noteq> []
        \<and> \<not> isSlotAvailable newDate st (newDate (date bd)) (Some k) \<longrightarrow>
        toggleTwice newDate st (map (\<lambda>x. hourLabel (Some x)) hs) (hourLabel (Some k))
          = (let r = filter (\<lambda>x. isSlotAvailable newDate st (newDate (date bd)) (Some x))
                       [Min (set (k # hs)) .. Max (set (k # hs))]
             in if r = [] then Inr [hourLabel (Some k)]
                else Inr (map (\<lambda>x. hourLabel (Some x))
                       (filter (\<lambda>x. isSlotAvailable newDate st (newDate (date bd)) (Some x))
                          [Min (set (k # r)) .. Max (set (k # r))]))))"
proof (intro conjI impI)
  show "toggleTwice newDate st [] hour = Inr []"
    by (rule toggleTwice_empty)
next
  assume "k \<in> set hs \<and> filter (\<lambda>x. x \<noteq> k) hs = []"
  then show "toggleTwice newDate st (map (\<lambda>x. hourLabel (Some x)) hs) (hourLabel (Some k))
          = Inr [hourLabel (Some k)]"
    by (intro toggleTwice_only) simp_all
next
  assume h: "bookingDetails st = Some bd \<and> hoursInRange (k # hs) \<and> k \<in> set hs
        \<and> filter (\<lambda>x. x \<noteq> k) hs \<noteq> []"
  then have eq: "toggleTwice newDate st (map (\<lambda>x. hourLabel (Some x)) hs) (hourLabel (Some k))
          = Inr (map (\<lambda>x. hourLabel (Some x))
                   (filter (\<lambda>x. isSlotAvailable newDate st (newDate (date bd)) (Some x))
                      [Min (set hs) .. Max (set hs)]))"
    by (intro toggleTwice_selected) simp_all
  show "toggleTwice newDate st (map (\<lambda>x. hourLabel (Some x)) hs) (hourLabel (Some k))
          = Inr (map (\<lambda>x. hourLabel (Some x))
                   (filter (\<lambda>x. isSlotAvailable newDate st (newDate (date bd)) (Some x))
                      [Min (set hs) .. Max (set hs)]))"
    by (rule eq)
  show "toggleTwice newDate st (map (\<lambda>x. hourLabel (Some x)) hs) (hourLabel (Some k))
              = Inr (map (\<lambda>x. hourLabel (Some x)) hs)
            \<longleftrightarrow> hs = filter (\<lambda>x. isSlotAvailable newDate st (newDate (date bd)) (Some x))
                        [Min (set hs) .. Max (set hs)]"
    unfolding eq by (simp only: sum.inject hourLabels_eq_iff) (rule eq_commute)
next
  assume h: "bookingDetails st = Some bd \<and> hoursInRange (k # hs) \<and> k \<notin> set hs \<and> hs \<noteq> []
        \<and> isSlotAvailable newDate st (newDate (date bd)) (Some k)"
  then have eq: "toggleTwice newDate st (map (\<lambda>x. hourLabel (Some x)) hs) (hourLabel (Some k))
          = Inr (map (\<lambda>x. hourLabel (Some x))
                   (filter (\<lambda>x. x \<noteq> k \<and> isSlotAvailable newDate st (newDate (date bd)) (Some x))
                      [Min (set (k # hs)) .. Max (set (k # hs))]))"
    by (intro toggleTwice_new_available) simp_all
  show "toggleTwice newDate st (map (\<lambda>x. hourLabel (Some x)) hs) (hourLabel (Some k))
          = Inr (map (\<lambda>x. hourLabel (Some x))
                   (filter (\<lambda>x. x \<noteq> k \<and> isSlotAvailable newDate st (newDate (date bd)) (Some x))
                      [Min (set (k # hs)) .. Max (set (k # hs))]))"
    by (rule eq)
  show "toggleTwice newDate st (map (\<lambda>x. hourLabel (Some x)) hs) (hourLabel (Some k))
              = Inr (map (\<lambda>x. hourLabel (Some x)) hs)
            \<longleftrightarrow> hs = filter (\<lambda>x. x \<noteq> k \<and> isSlotAvailable newDate st (newDate (date bd)) (Some x))
                        [Min (set (k # hs)) .. Max (set (k # hs))]"
    unfolding eq by (simp only: sum.inject hourLabels_eq_iff) (rule eq_commute)
next
  assume h: "bookingDetails st = Some bd \<and> hoursInRange (k # hs) \<and> k \<notin> set hs \<and> hs \<noteq> []
        \<and> \<not> isSlotAvailable newDate st (newDate (date bd)) (Some k)"
  then show "toggleTwice newDate st (map (\<lambda>x. hourLabel (Some x)) hs) (hourLabel (Some k))
          = (let r = filter (\<lambda>x. isSlotAvailable newDate st (newDate (date bd)) (Some x))
                       [Min (set (k # hs)) .. Max (set (k # hs))]
             in if r = [] then Inr [hourLabel (Some k)]
                else Inr (map (\<lambda>x. hourLabel (Some x))
                       (filter (\<lambda>x. isSlotAvailable newDate st (newDate (date bd)) (Some x))
                          [Min (set (k # r)) .. Max (set (k # r))])))"
    by (intro toggleTwice_new_unavailable) simp_all
qed

theorem toggle_twice_characterised_witness:
  "toggleTwice exampleNewDate scenarioA [''10:00'', ''11:00''] ''12:00'' = Inr [''10:00'', ''11:00'']
   \<and> toggleTwice exampleNewDate scenarioD [''10:00'', ''12:00''] ''10:00'' = Inr [''10:00'', ''12:00'']
   \<and> toggleTwice exampleNewDate scenarioD [''10:00'', ''12:00''] ''11:00'' = Inr [''10:00'', ''12:00'']
   \<and> toggleTwice exampleNewDate scenarioA [''10:00''] ''10:00'' = Inr [''10:00'']"
proof -
  let ?L = "\<lambda>x. hourLabel (Some x)"
  let ?avA = "\<lambda>x. isSlotAvailable exampleNewDate scenarioA (exampleNewDate (date exampleDetails)) (Some x)"
  let ?avD = "\<lambda>x. isSlotAvailable exampleNewDate scenarioD (exampleNewDate (date exampleDetails)) (Some x)"
  have bdA: "bookingDetails scenarioA = Some exampleDetails"
    by (simp add: scenarioA_def)
  have bdD: "bookingDetails scenarioD = Some exampleDetails"
    by (simp add: scenarioD_def scenarioA_def)
  have avA: "?avA 10" "?avA 11" "?avA 12"
    by code_simp+
  have avD: "?avD 10" "\<not> ?avD 11" "?avD 12"
    by code_simp+
  have lab: "hourLabel (Some 10) = ''10:00''" "hourLabel (Some 11) = ''11:00''"
            "hourLabel (Some 12) = ''12:00''"
    by code_simp+
  have span: "[10 .. 12] = [10, 11, 12 :: int]"
    by (simp add: upto.simps)
  have new_av: "toggleTwice exampleNewDate scenarioA (map ?L [10, 11]) (?L 12)
          = Inr (map ?L (filter (\<lambda>x. x \<noteq> 12 \<and> ?avA x)
                           [Min (set (12 # [10, 11])) .. Max (set (12 # [10, 11]))]))"
  proof -
    have "bookingDetails scenarioA = Some exampleDetails \<and> hoursInRange (12 # [10, 11])
            \<and> (12 :: int) \<notin> set [10, 11] \<and> [10, 11 :: int] \<noteq> [] \<and> ?avA 12"
      using bdA avA by (simp add: hoursInRange_def)
    with toggle_twice_characterised
           [where st = scenarioA and bd = exampleDetails and k = 12 and hs = "[10, 11]"
              and newDate = exampleNewDate]
    show ?thesis by blast
  qed
  have selected: "toggleTwice exampleNewDate scenarioD (map ?L [10, 12]) (?L 10)
          = Inr (map ?L (filter ?avD [Min (set [10, 12]) .. Max (set [10, 12])]))"
  proof -
    have "bookingDetails scenarioD = Some exampleDetails \<and> hoursInRange (10 # [10, 12])
            \<and> (10 :: int) \<in> set [10, 12] \<and> filter (\<lambda>x. x \<noteq> 10) [10, 12 :: int] \<noteq> []"
      using bdD by (simp add: hoursInRange_def)
    with toggle_twice_characterised
           [where st = scenarioD and bd = exampleDetails and k = 10 and hs = "[10, 12]"
              and newDate = exampleNewDate]
    show ?thesis by blast
  qed
  have new_unav: "toggleTwice exampleNewDate scenarioD (map ?L [10, 12]) (?L 11)
          = (let r = filter ?avD [Min (set (11 # [10, 12])) .. Max (set (11 # [10, 12]))]
             in if r = [] then Inr [?L 11]
                else Inr (map ?L (filter ?avD [Min (set (11 # r)) .. Max (set (11 # r))])))"
  proof -
    have "bookingDetails scenarioD = Some exampleDetails \<and> hoursInRange (11 # [10, 12])
            \<and> (11 :: int) \<notin> set [10, 12] \<and> [10, 12 :: int] \<noteq> [] \<and> \<not> ?avD 11"
      using bdD avD by (simp add: hoursInRange_def)
    with toggle_twice_characterised
           [where st = scenarioD and bd = exampleDetails and k = 11 and hs = "[10, 12]"
              and newDate = exampleNewDate]
    show ?thesis by blast
  qed
  have only: "toggleTwice exampleNewDate scenarioA (map ?L [10]) (?L 10) = Inr [?L 10]"
  proof -
    have "(10 :: int) \<in> set [10] \<and> filter (\<lambda>x. x \<noteq> 10) [10 :: int] = []"
      by simp
    with toggle_twice_characterised
           [where st = scenarioA and k = 10 and hs = "[10]" and newDate = exampleNewDate]
    show ?thesis by blast
  qed
  have r1: "toggleTwice exampleNewDate scenarioA [''10:00'', ''11:00''] ''12:00''
              = Inr [''10:00'', ''11:00'']"
    using new_av avA by (simp add: span lab)
  have r2: "toggleTwice exampleNewDate scenarioD [''10:00'', ''12:00''] ''10:00''
              = Inr [''10:00'', ''12:00'']"
    using selected avD by (simp add: span lab)
  have r3: "toggleTwice exampleNewDate scenarioD [''10:00'', ''12:00''] ''11:00''
              = Inr [''10:00'', ''12:00'']"
    using new_unav avD by (simp add: span lab Let_def)
  have r4: "toggleTwice exampleNewDate scenarioA [''10:00''] ''10:00'' = Inr [''10:00'']"
    using only by (simp add: lab)
  from r1 r2 r3 r4 show ?thesis by blast
qed

text \<open>
  C4, the counterexample. In scenario A the selection 10:00 and two toggles of 12:00: the
  first fills the span 10:00--12:00, the second removes 12:00 only, and 11:00 stays.
\<close>

theorem toggle_twice_counterexample:
  "toggleTwice exampleNewDate scenarioA [''10:00''] ''12:00'' = Inr [''10:00'', ''11:00'']
   \<and> toggleTwice exampleNewDate scenarioA [''10:00''] ''12:00'' \<noteq> Inr [''10:00'']"
proof -
  have "toggleTwice exampleNewDate scenarioA [''10:00''] ''12:00'' = Inr [''10:00'', ''11:00'']"
    by code_simp
  then show ?thesis by simp
qed

section \<open>Rounding to binary64 is monotone\<close>

lemma ilog2_bounds:
  assumes "0 < x"
  shows "2 powi (ilog2 x) \<le> x \<and> x < 2 powi (ilog2 x + 1)"
proof (cases "1 \<le> x")
  case True
  let ?n = "\<lfloor>x\<rfloor>"
  let ?e = "bitlen ?n - 1"
  from True have n: "0 < ?n" by simp
  from bitlen_bounds [OF n] have lo: "2 ^ nat ?e \<le> ?n" and hi: "?n < 2 ^ nat (bitlen ?n)"
    by simp_all
  have e: "0 \<le> ?e" using n bitlen_eq_zero_iff [of ?n] bitlen_nonneg [of ?n] by linarith
  have il: "ilog2 x = ?e" using True by (simp add: ilog2_def)
  have "(2 :: rat) powi ?e = of_int (2 ^ nat ?e)"
    using e by (simp add: power_int_nonneg_exp)
  also have "\<dots> \<le> of_int ?n" using lo by (simp only: of_int_le_iff)
  also have "\<dots> \<le> x" by simp
  finally have low: "2 powi ?e \<le> x" .
  have "?n + 1 \<le> 2 ^ nat (bitlen ?n)" using hi by simp
  then have "(of_int (?n + 1) :: rat) \<le> of_int (2 ^ nat (bitlen ?n))"
    by (simp only: of_int_le_iff)
  moreover have "x < of_int (?n + 1)" by linarith
  ultimately have "x < of_int (2 ^ nat (bitlen ?n))" by linarith
  also have "\<dots> = (2 :: rat) powi (?e + 1)"
    using e by (simp add: power_int_nonneg_exp)
  finally show ?thesis using low il by simp
next
  case False
  let ?y = "1 / x"
  let ?m = "\<lceil>?y\<rceil> - 1"
  let ?k = "bitlen ?m"
  from False assms have y: "1 < ?y" by (simp add: field_simps)
  then have "2 \<le> \<lceil>?y\<rceil>" by linarith
  then have m: "0 < ?m" by simp
  from bitlen_bounds [OF m] have lo: "2 ^ nat (?k - 1) \<le> ?m" and hi: "?m < 2 ^ nat ?k"
    by simp_all
  have k: "1 \<le> ?k" using m bitlen_eq_zero_iff [of ?m] bitlen_nonneg [of ?m] by linarith
  have il: "ilog2 x = - ?k" using False by (simp add: ilog2_def)
  have "of_int ?m < ?y" by linarith
  moreover have "(of_int (2 ^ nat (?k - 1)) :: rat) \<le> of_int ?m"
    using lo by (simp only: of_int_le_iff)
  ultimately have ylow: "(2 :: rat) ^ nat (?k - 1) < ?y" by simp
  have "\<lceil>?y\<rceil> \<le> 2 ^ nat ?k" using hi by simp
  then have "(of_int \<lceil>?y\<rceil> :: rat) \<le> of_int (2 ^ nat ?k)" by (simp only: of_int_le_iff)
  moreover have "?y \<le> of_int \<lceil>?y\<rceil>" by simp
  moreover have "(of_int (2 ^ nat ?k) :: rat) = 2 ^ nat ?k" by simp
  ultimately have yhigh: "?y \<le> (2 :: rat) ^ nat ?k" by linarith
  have p1: "(2 :: rat) powi (- ?k) = 1 / 2 ^ nat ?k"
    using k by (simp add: power_int_def inverse_eq_divide power_one_over)
  have p2: "(2 :: rat) powi (- ?k + 1) = 1 / 2 ^ nat (?k - 1)"
  proof -
    have "- ?k + 1 = - (?k - 1)" by simp
    then show ?thesis
      using k by (simp only: power_int_minus_divide) (simp add: power_int_nonneg_exp)
  qed
  have "1 / 2 ^ nat ?k \<le> x"
    using yhigh assms by (simp add: field_simps)
  moreover have "x < 1 / 2 ^ nat (?k - 1)"
    using ylow assms by (simp add: field_simps)
  ultimately show ?thesis using il p1 p2 by simp
qed

lemma ilog2_ge_iff:
  assumes "0 < x"
  shows "n \<le> ilog2 x \<longleftrightarrow> 2 powi n \<le> x"
proof
  assume "n \<le> ilog2 x"
  then have "(2 :: rat) powi n \<le> 2 powi (ilog2 x)"
    by (intro power_int_increasing) simp_all
  with ilog2_bounds [OF assms] show "2 powi n \<le> x" by linarith
next
  assume le: "2 powi n \<le> x"
  show "n \<le> ilog2 x"
  proof (rule ccontr)
    assume "\<not> n \<le> ilog2 x"
    then have "ilog2 x + 1 \<le> n" by simp
    then have "(2 :: rat) powi (ilog2 x + 1) \<le> 2 powi n"
      by (intro power_int_increasing) simp_all
    with ilog2_bounds [OF assms] le show False by linarith
  qed
qed

lemma ilog2_mono:
  assumes "0 < x" "x \<le> y"
  shows "ilog2 x \<le> ilog2 y"
proof -
  have "2 powi (ilog2 x) \<le> y"
    using ilog2_bounds [OF assms(1)] assms(2) by linarith
  moreover have "0 < y" using assms by linarith
  ultimately show ?thesis by (simp only: ilog2_ge_iff)
qed

lemma roundHalfEven_cases:
  "roundHalfEven r = \<lfloor>r\<rfloor> \<and> r - of_int \<lfloor>r\<rfloor> \<le> 1 / 2
   \<or> roundHalfEven r = \<lfloor>r\<rfloor> + 1 \<and> 1 / 2 \<le> r - of_int \<lfloor>r\<rfloor>"
  by (simp add: roundHalfEven_def Let_def)

lemma roundHalfEven_of_int: "roundHalfEven (of_int k) = k"
  by (simp add: roundHalfEven_def)

lemma roundHalfEven_mono:
  assumes "r \<le> s"
  shows "roundHalfEven r \<le> roundHalfEven s"
proof (cases "\<lfloor>r\<rfloor> = \<lfloor>s\<rfloor>")
  case True
  have "r - of_int \<lfloor>r\<rfloor> \<le> s - of_int \<lfloor>s\<rfloor>" using assms True by simp
  then show ?thesis
    using True by (auto simp: roundHalfEven_def Let_def)
next
  case False
  have "\<lfloor>r\<rfloor> \<le> \<lfloor>s\<rfloor>" using assms by (rule floor_mono)
  with False have "\<lfloor>r\<rfloor> + 1 \<le> \<lfloor>s\<rfloor>" by simp
  moreover have "roundHalfEven r \<le> \<lfloor>r\<rfloor> + 1"
    using roundHalfEven_cases [of r] by linarith
  moreover have "\<lfloor>s\<rfloor> \<le> roundHalfEven s"
    using roundHalfEven_cases [of s] by linarith
  ultimately show ?thesis by linarith
qed

lemma roundHalfEven_ge: "of_int k \<le> r \<Longrightarrow> k \<le> roundHalfEven r"
  using roundHalfEven_mono [of "of_int k" r] by (simp add: roundHalfEven_of_int)

lemma roundHalfEven_le: "r \<le> of_int k \<Longrightarrow> roundHalfEven r \<le> k"
  using roundHalfEven_mono [of r "of_int k"] by (simp add: roundHalfEven_of_int)

lemma ulp_pos: "0 < ulp x"
  by (simp add: ulp_def)

lemma roundToDouble_nonneg:
  assumes "0 \<le> x"
  shows "0 \<le> roundToDouble x"
proof (cases "x = 0")
  case True
  then show ?thesis by (simp add: roundToDouble_def)
next
  case False
  have "(of_int 0 :: rat) \<le> x / ulp x"
    using assms ulp_pos [of x] by simp
  then have "0 \<le> roundHalfEven (x / ulp x)" by (rule roundHalfEven_ge)
  then show ?thesis
    using False ulp_pos [of x] by (simp add: roundToDouble_def)
qed

lemma roundToDouble_upper:
  assumes "0 < x"
  shows "roundToDouble x \<le> 2 powi (max (ilog2 x) (- 1022) + 1)"
proof -
  let ?e = "max (ilog2 x) (- 1022)"
  have u: "ulp x = 2 powi (?e - 52)" using assms by (simp add: ulp_def)
  have split: "(2 :: rat) powi (?e + 1) = of_int (2 ^ 53) * 2 powi (?e - 52)"
  proof -
    have "(2 :: rat) powi (?e + 1) = 2 powi (53 + (?e - 52))"
      by (rule arg_cong [where f = "\<lambda>n. 2 powi n"]) simp
    also have "\<dots> = 2 powi 53 * 2 powi (?e - 52)"
      by (rule power_int_add) simp
    finally show ?thesis by simp
  qed
  have "x < 2 powi (ilog2 x + 1)" using ilog2_bounds [OF assms] by simp
  also have "\<dots> \<le> 2 powi (?e + 1)" by (intro power_int_increasing) simp_all
  finally have "x \<le> of_int (2 ^ 53) * ulp x" using split u by simp
  then have "x / ulp x \<le> of_int (2 ^ 53)"
    using ulp_pos [of x] by (simp add: field_simps)
  then have "roundHalfEven (x / ulp x) \<le> 2 ^ 53" by (rule roundHalfEven_le)
  then have "(of_int (roundHalfEven (x / ulp x)) :: rat) \<le> of_int (2 ^ 53)"
    by (simp only: of_int_le_iff)
  then have "of_int (roundHalfEven (x / ulp x)) * ulp x \<le> of_int (2 ^ 53) * ulp x"
    using ulp_pos [of x] by (simp only: mult_le_cancel_right) simp
  then show ?thesis
    using assms split u by (simp add: roundToDouble_def)
qed

lemma roundToDouble_lower:
  assumes "0 < x" "- 1022 \<le> ilog2 x"
  shows "2 powi (ilog2 x) \<le> roundToDouble x"
proof -
  let ?e = "ilog2 x"
  have u: "ulp x = 2 powi (?e - 52)" using assms by (simp add: ulp_def max_def)
  have split: "(2 :: rat) powi ?e = of_int (2 ^ 52) * 2 powi (?e - 52)"
  proof -
    have "(2 :: rat) powi ?e = 2 powi (52 + (?e - 52))"
      by (rule arg_cong [where f = "\<lambda>n. 2 powi n"]) simp
    also have "\<dots> = 2 powi 52 * 2 powi (?e - 52)"
      by (rule power_int_add) simp
    finally show ?thesis by simp
  qed
  have "of_int (2 ^ 52) * ulp x \<le> x"
    using ilog2_bounds [OF assms(1)] split u by simp
  then have "of_int (2 ^ 52) \<le> x / ulp x"
    using ulp_pos [of x] by (simp add: field_simps)
  then have "2 ^ 52 \<le> roundHalfEven (x / ulp x)" by (rule roundHalfEven_ge)
  then have "(of_int (2 ^ 52) :: rat) \<le> of_int (roundHalfEven (x / ulp x))"
    by (simp only: of_int_le_iff)
  then have "of_int (2 ^ 52) * ulp x \<le> of_int (roundHalfEven (x / ulp x)) * ulp x"
    using ulp_pos [of x] by (simp only: mult_le_cancel_right) simp
  then show ?thesis
    using assms split u by (simp add: roundToDouble_def)
qed

lemma roundToDouble_mono_pos:
  assumes "0 < x" "x \<le> y"
  shows "roundToDouble x \<le> roundToDouble y"
proof -
  let ?ex = "max (ilog2 x) (- 1022)" and ?ey = "max (ilog2 y) (- 1022)"
  have y: "0 < y" using assms by linarith
  have le: "?ex \<le> ?ey" using ilog2_mono [OF assms] by simp
  show ?thesis
  proof (cases "?ex = ?ey")
    case True
    then have u: "ulp x = ulp y" using assms y by (simp add: ulp_def)
    have "x / ulp y \<le> y / ulp y"
      using assms(2) ulp_pos [of y] by (simp add: divide_right_mono)
    then have "roundHalfEven (x / ulp y) \<le> roundHalfEven (y / ulp y)"
      by (rule roundHalfEven_mono)
    then have "(of_int (roundHalfEven (x / ulp y)) :: rat) \<le> of_int (roundHalfEven (y / ulp y))"
      by (simp only: of_int_le_iff)
    then have "of_int (roundHalfEven (x / ulp y)) * ulp y \<le> of_int (roundHalfEven (y / ulp y)) * ulp y"
      using ulp_pos [of y] by (simp only: mult_le_cancel_right) simp
    then show ?thesis
      using assms y u by (simp add: roundToDouble_def)
  next
    case False
    with le have lt: "?ex + 1 \<le> ?ey" by simp
    then have ey: "?ey = ilog2 y" and big: "- 1022 \<le> ilog2 y" by simp_all
    have "roundToDouble x \<le> 2 powi (?ex + 1)" by (rule roundToDouble_upper [OF assms(1)])
    also have "\<dots> \<le> 2 powi ?ey" using lt by (intro power_int_increasing) simp_all
    also have "\<dots> \<le> roundToDouble y"
      unfolding ey by (rule roundToDouble_lower [OF y big])
    finally show ?thesis .
  qed
qed

lemma roundToDouble_mono:
  assumes "0 \<le> x" "x \<le> y"
  shows "roundToDouble x \<le> roundToDouble y"
proof (cases "x = 0")
  case True
  have "0 \<le> roundToDouble y" using assms by (intro roundToDouble_nonneg) linarith
  with True show ?thesis by (simp add: roundToDouble_def)
next
  case False
  with assms have "0 < x" by simp
  then show ?thesis using assms(2) by (rule roundToDouble_mono_pos)
qed

lemma ilog2_zero: "ilog2 0 = 0"
  by (simp add: ilog2_def bitlen_eq_zero_iff)

lemma toNumber_cases:
  assumes "0 \<le> x"
  shows "toNumber x = (if 2 powi 1024 \<le> roundToDouble x then PlusInfinity
                      else Finite (roundToDouble x))"
proof (cases "roundToDouble x = 0")
  case True
  then show ?thesis by (simp add: toNumber_def ilog2_zero)
next
  case False
  with roundToDouble_nonneg [OF assms] have pos: "0 < roundToDouble x" by simp
  then have "\<bar>roundToDouble x\<bar> = roundToDouble x" by simp
  with pos show ?thesis
    by (simp add: toNumber_def Let_def ilog2_ge_iff [OF pos])
qed

lemma toNumber_nonNegative: "0 \<le> x \<Longrightarrow> nonNegative (toNumber x)"
  using roundToDouble_nonneg [of x] by (simp add: toNumber_cases nonNegative_def)

lemma toNumber_mono:
  assumes "0 \<le> x" "x \<le> y"
  shows "js_le (toNumber x) (toNumber y)"
proof -
  have y: "0 \<le> y" using assms by linarith
  have "roundToDouble x \<le> roundToDouble y" by (rule roundToDouble_mono [OF assms])
  then show ?thesis
    by (simp add: toNumber_cases [OF assms(1)] toNumber_cases [OF y] js_le_def)
qed

section \<open>The price breakdown\<close>

lemma literal_030: "toNumber (3 / 10) = Finite (5404319552844595 / 18014398509481984)"
  by code_simp

lemma literal_011: "toNumber (11 / 100) = Finite (7926335344172073 / 72057594037927936)"
  by code_simp

lemma js_mul_mono:
  assumes "nonNegative x" "nonNegative y" "js_le x y" "0 < c"
  shows "js_le (js_mul x (Finite c)) (js_mul y (Finite c)) \<and> nonNegative (js_mul x (Finite c))
         \<and> nonNegative (js_mul y (Finite c))"
proof (cases x)
  case (Finite a)
  with assms(1) have a: "0 \<le> a" by (simp add: nonNegative_def)
  then have ac: "0 \<le> a * c" using assms(4) by simp
  show ?thesis
  proof (cases y)
    case (Finite b)
    with assms(3) \<open>x = Finite a\<close> have ab: "a \<le> b" by (simp add: js_le_def)
    then have "a * c \<le> b * c" using assms(4) by simp
    moreover have "0 \<le> b * c" using a ab assms(4) by simp
    ultimately show ?thesis
      using ac Finite \<open>x = Finite a\<close>
      by (simp add: js_mul_def toNumber_mono toNumber_nonNegative)
  next
    case PlusInfinity
    have nn: "nonNegative (toNumber (a * c))" using ac by (rule toNumber_nonNegative)
    then have le: "js_le (toNumber (a * c)) PlusInfinity"
      by (cases "toNumber (a * c)") (simp_all add: nonNegative_def js_le_def)
    have "js_mul y (Finite c) = PlusInfinity"
      using PlusInfinity assms(4) by (simp add: js_mul_def numSign_def)
    moreover have "js_mul x (Finite c) = toNumber (a * c)"
      using \<open>x = Finite a\<close> by (simp add: js_mul_def)
    moreover have "nonNegative PlusInfinity" by (simp add: nonNegative_def)
    ultimately show ?thesis using nn le by simp
  next
    case NaN
    with assms(2) show ?thesis by (simp add: nonNegative_def)
  next
    case MinusInfinity
    with assms(2) show ?thesis by (simp add: nonNegative_def)
  qed
next
  case PlusInfinity
  with assms(2,3) have "y = PlusInfinity"
    by (cases y) (simp_all add: js_le_def nonNegative_def)
  with PlusInfinity assms(4) show ?thesis
    by (simp add: js_mul_def numSign_def nonNegative_def js_le_def)
next
  case NaN
  with assms(1) show ?thesis by (simp add: nonNegative_def)
next
  case MinusInfinity
  with assms(1) show ?thesis by (simp add: nonNegative_def)
qed

lemma js_le_PlusInfinity: "nonNegative x \<Longrightarrow> js_le x PlusInfinity"
  by (cases x) (simp_all add: nonNegative_def js_le_def)

lemma js_add_nonNegative:
  assumes "nonNegative x" "nonNegative y"
  shows "nonNegative (js_add x y)"
proof -
  consider (ff) a b where "x = Finite a" "y = Finite b" "0 \<le> a" "0 \<le> b"
    | (inf) "x = PlusInfinity \<or> y = PlusInfinity"
    using assms by (cases x; cases y) (simp_all add: nonNegative_def)
  then show ?thesis
  proof cases
    case ff
    then show ?thesis by (simp add: js_add_def toNumber_nonNegative)
  next
    case inf
    with assms show ?thesis
      by (cases x; cases y) (simp_all add: js_add_def nonNegative_def)
  qed
qed

lemma js_add_mono:
  assumes "nonNegative x" "nonNegative y" "nonNegative x'" "nonNegative y'"
    and "js_le x x'" "js_le y y'"
  shows "js_le (js_add x y) (js_add x' y')"
proof -
  consider (ff) a b where "x' = Finite a" "y' = Finite b"
    | (inf) "x' = PlusInfinity \<or> y' = PlusInfinity"
    using assms(3,4) by (cases x'; cases y') (simp_all add: nonNegative_def)
  then show ?thesis
  proof cases
    case ff
    from ff(1) assms(1,5) obtain c where c: "x = Finite c" "0 \<le> c" "c \<le> a"
      by (cases x) (simp_all add: js_le_def nonNegative_def)
    from ff(2) assms(2,6) obtain d where d: "y = Finite d" "0 \<le> d" "d \<le> b"
      by (cases y) (simp_all add: js_le_def nonNegative_def)
    have "0 \<le> c + d" "c + d \<le> a + b" using c d by simp_all
    then show ?thesis
      using ff c d by (simp add: js_add_def toNumber_mono)
  next
    case inf
    with assms(3,4) have "js_add x' y' = PlusInfinity"
      by (cases x'; cases y') (simp_all add: js_add_def nonNegative_def)
    then show ?thesis
      using js_add_nonNegative [OF assms(1,2)] by (simp add: js_le_PlusInfinity)
  qed
qed

lemma Math_round_mono:
  assumes "nonNegative x" "nonNegative y" "js_le x y"
  shows "js_le (Math_round x) (Math_round y)"
proof (cases y)
  case (Finite b)
  with assms(1,3) obtain a where a: "x = Finite a" "a \<le> b"
    by (cases x) (simp_all add: js_le_def nonNegative_def)
  then have "\<lfloor>a + 1 / 2\<rfloor> \<le> \<lfloor>b + 1 / 2\<rfloor>" by (intro floor_mono) simp
  then show ?thesis
    using a Finite by (simp add: Math_round_def js_le_def)
next
  case PlusInfinity
  with assms(1) show ?thesis
    by (cases x) (simp_all add: Math_round_def js_le_def nonNegative_def)
next
  case NaN
  with assms(2) show ?thesis by (simp add: nonNegative_def)
next
  case MinusInfinity
  with assms(2) show ?thesis by (simp add: nonNegative_def)
qed

lemma subtotal_mono:
  assumes "0 \<le> p" "n \<le> m"
  shows "js_le (subtotal (Finite p) n) (subtotal (Finite p) m)
         \<and> nonNegative (subtotal (Finite p) n) \<and> nonNegative (subtotal (Finite p) m)"
proof -
  have "0 \<le> p * of_nat n" "0 \<le> p * of_nat m" using assms(1) by simp_all
  moreover have "p * of_nat n \<le> p * of_nat m"
    using assms by (simp add: mult_left_mono)
  ultimately show ?thesis
    by (simp add: subtotal_def js_mul_def toNumber_mono toNumber_nonNegative)
qed

lemma total_mono:
  assumes "0 \<le> p" "n \<le> m"
  shows "js_le (total (Finite p) n) (total (Finite p) m)"
proof -
  let ?s = "subtotal (Finite p)" and ?f = "platformFee (Finite p)"
  let ?w = "subtotalWithPlatformFee (Finite p)" and ?t = "tax (Finite p)"
  note s = subtotal_mono [OF assms]
  have f: "js_le (?f n) (?f m) \<and> nonNegative (?f n) \<and> nonNegative (?f m)"
    unfolding platformFee_def literal_030 using s by (intro js_mul_mono) simp_all
  have w: "js_le (?w n) (?w m)" "nonNegative (?w n)" "nonNegative (?w m)"
    unfolding subtotalWithPlatformFee_def using s f
    by (simp_all add: js_add_mono js_add_nonNegative)
  have t: "js_le (?t n) (?t m) \<and> nonNegative (?t n) \<and> nonNegative (?t m)"
    unfolding tax_def literal_011 using w by (intro js_mul_mono) simp_all
  have "js_le (js_add (?w n) (?t n)) (js_add (?w m) (?t m))"
    using w t by (simp add: js_add_mono)
  moreover have "nonNegative (js_add (?w n) (?t n))" "nonNegative (js_add (?w m) (?t m))"
    using w t by (simp_all add: js_add_nonNegative)
  ultimately show ?thesis
    unfolding total_def by (rule Math_round_mono [rotated 2])
qed

text \<open>The breakdown at the prices of the examples, computed step by step.\<close>

lemma breakdown_100000_2:
  "subtotal (Finite 100000) 2 = Finite 200000"
  "platformFee (Finite 100000) 2 = Finite 60000"
  "subtotalWithPlatformFee (Finite 100000) 2 = Finite 260000"
  "tax (Finite 100000) 2 = Finite 28600"
  "js_add (subtotalWithPlatformFee (Finite 100000) 2) (tax (Finite 100000) 2) = Finite 288600"
  "total (Finite 100000) 2 = Finite 288600"
proof -
  show s: "subtotal (Finite 100000) 2 = Finite 200000"
    by code_simp
  show f: "platformFee (Finite 100000) 2 = Finite 60000"
    unfolding platformFee_def s literal_030 by code_simp
  show w: "subtotalWithPlatformFee (Finite 100000) 2 = Finite 260000"
    unfolding subtotalWithPlatformFee_def s f by code_simp
  show t: "tax (Finite 100000) 2 = Finite 28600"
    unfolding tax_def w literal_011 by code_simp
  show a: "js_add (subtotalWithPlatformFee (Finite 100000) 2) (tax (Finite 100000) 2) = Finite 288600"
    unfolding w t by code_simp
  show "total (Finite 100000) 2 = Finite 288600"
    unfolding total_def a by code_simp
qed

lemma breakdown_100000_1:
  "subtotal (Finite 100000) 1 = Finite 100000"
  "platformFee (Finite 100000) 1 = Finite 30000"
  "subtotalWithPlatformFee (Finite 100000) 1 = Finite 130000"
  "tax (Finite 100000) 1 = Finite 14300"
  "js_add (subtotalWithPlatformFee (Finite 100000) 1) (tax (Finite 100000) 1) = Finite 144300"
  "total (Finite 100000) 1 = Finite 144300"
proof -
  show s: "subtotal (Finite 100000) 1 = Finite 100000"
    by code_simp
  show f: "platformFee (Finite 100000) 1 = Finite 30000"
    unfolding platformFee_def s literal_030 by code_simp
  show w: "subtotalWithPlatformFee (Finite 100000) 1 = Finite 130000"
    unfolding subtotalWithPlatformFee_def s f by code_simp
  show t: "tax (Finite 100000) 1 = Finite 14300"
    unfolding tax_def w literal_011 by code_simp
  show a: "js_add (subtotalWithPlatformFee (Finite 100000) 1) (tax (Finite 100000) 1) = Finite 144300"
    unfolding w t by code_simp
  show "total (Finite 100000) 1 = Finite 144300"
    unfolding total_def a by code_simp
qed

lemma breakdown_500:
  "subtotal (Finite 500) 1 = Finite 500"
  "platformFee (Finite 500) 1 = Finite 150"
  "subtotalWithPlatformFee (Finite 500) 1 = Finite 650"
  "tax (Finite 500) 1 = Finite (143 / 2)"
  "js_add (subtotalWithPlatformFee (Finite 500) 1) (tax (Finite 500) 1) = Finite (1443 / 2)"
  "total (Finite 500) 1 = Finite 722"
proof -
  show s: "subtotal (Finite 500) 1 = Finite 500"
    by code_simp
  show f: "platformFee (Finite 500) 1 = Finite 150"
    unfolding platformFee_def s literal_030 by code_simp
  show w: "subtotalWithPlatformFee (Finite 500) 1 = Finite 650"
    unfolding subtotalWithPlatformFee_def s f by code_simp
  show t: "tax (Finite 500) 1 = Finite (143 / 2)"
    unfolding tax_def w literal_011 by code_simp
  show a: "js_add (subtotalWithPlatformFee (Finite 500) 1) (tax (Finite 500) 1) = Finite (1443 / 2)"
    unfolding w t by code_simp
  show "total (Finite 500) 1 = Finite 722"
    unfolding total_def a by code_simp
qed

lemma breakdown_minus_500:
  "subtotal (Finite (- 500)) 1 = Finite (- 500)"
  "platformFee (Finite (- 500)) 1 = Finite (- 150)"
  "subtotalWithPlatformFee (Finite (- 500)) 1 = Finite (- 650)"
  "tax (Finite (- 500)) 1 = Finite (- (143 / 2))"
  "js_add (subtotalWithPlatformFee (Finite (- 500)) 1) (tax (Finite (- 500)) 1) = Finite (- (1443 / 2))"
  "total (Finite (- 500)) 1 = Finite (- 721)"
proof -
  show s: "subtotal (Finite (- 500)) 1 = Finite (- 500)"
    by code_simp
  show f: "platformFee (Finite (- 500)) 1 = Finite (- 150)"
    unfolding platformFee_def s literal_030 by code_simp
  show w: "subtotalWithPlatformFee (Finite (- 500)) 1 = Finite (- 650)"
    unfolding subtotalWithPlatformFee_def s f by code_simp
  show t: "tax (Finite (- 500)) 1 = Finite (- (143 / 2))"
    unfolding tax_def w literal_011 by code_simp
  show a: "js_add (subtotalWithPlatformFee (Finite (- 500)) 1) (tax (Finite (- 500)) 1) = Finite (- (1443 / 2))"
    unfolding w t by code_simp
  show "total (Finite (- 500)) 1 = Finite (- 721)"
    unfolding total_def a by code_simp
qed

lemma breakdown_1:
  "subtotal (Finite 1) 1 = Finite 1"
  "platformFee (Finite 1) 1 = Finite (5404319552844595 / 18014398509481984)"
  "subtotalWithPlatformFee (Finite 1) 1 = Finite (5854679515581645 / 4503599627370496)"
  "tax (Finite 1) 1 = Finite (644014746713981 / 4503599627370496)"
  "js_add (subtotalWithPlatformFee (Finite 1) 1) (tax (Finite 1) 1) = Finite (3249347131147813 / 2251799813685248)"
  "total (Finite 1) 1 = Finite 1"
proof -
  show s: "subtotal (Finite 1) 1 = Finite 1"
    by code_simp
  show f: "platformFee (Finite 1) 1 = Finite (5404319552844595 / 18014398509481984)"
    unfolding platformFee_def s literal_030 by code_simp
  show w: "subtotalWithPlatformFee (Finite 1) 1 = Finite (5854679515581645 / 4503599627370496)"
    unfolding subtotalWithPlatformFee_def s f by code_simp
  show t: "tax (Finite 1) 1 = Finite (644014746713981 / 4503599627370496)"
    unfolding tax_def w literal_011 by code_simp
  show a: "js_add (subtotalWithPlatformFee (Finite 1) 1) (tax (Finite 1) 1) = Finite (3249347131147813 / 2251799813685248)"
    unfolding w t by code_simp
  show "total (Finite 1) 1 = Finite 1"
    unfolding total_def a by code_simp
qed

lemma fee_of_5: "platformFee (Finite 5) 1 = Finite (3 / 2)"
proof -
  have s: "subtotal (Finite 5) 1 = Finite 5" by code_simp
  show ?thesis
    unfolding platformFee_def s literal_030 by code_simp
qed

text \<open>
  C9 (as the code has it). For a fixed finite base price \<open>p \<ge> 0\<close> the total, computed in
  binary64 arithmetic as the page computes it, does not decrease when the number of hours
  grows.
\<close>

theorem total_nondecreasing_in_hourCount:
  assumes "0 \<le> basePrice" and "hourCount1 \<le> hourCount2"
  shows "js_le (total (Finite basePrice) hourCount1) (total (Finite basePrice) hourCount2)"
  using assms by (rule total_mono)

theorem total_nondecreasing_in_hourCount_witness:
  "total (Finite 100000) 1 = Finite 144300 \<and> total (Finite 100000) 2 = Finite 288600
   \<and> js_le (total (Finite 100000) 1) (total (Finite 100000) 2)"
proof -
  have h1: "(0 :: rat) \<le> 100000" by simp
  have h2: "(1 :: nat) \<le> 2" by simp
  have v1: "total (Finite 100000) 1 = Finite 144300" by (rule breakdown_100000_1)
  have v2: "total (Finite 100000) 2 = Finite 288600" by (rule breakdown_100000_2)
  from total_nondecreasing_in_hourCount [OF h1 h2] v1 v2 show ?thesis by simp
qed

text \<open>
  C9, the counterexample. The price parameter \<^verbatim>\<open>Infinity\<close> is a Number not below 0. With
  no hour selected the subtotal is infinity times zero, NaN, and so is the total; with
  one hour the total is infinity; and NaN is not below or equal to anything.
\<close>

theorem infinite_price_counterexample:
  "js_le (Finite 0) PlusInfinity
   \<and> pageTotal scenarioInfinitePrice = Some NaN
   \<and> total PlusInfinity 0 = NaN
   \<and> total PlusInfinity 1 = PlusInfinity
   \<and> \<not> js_le (total PlusInfinity 0) (total PlusInfinity 1)"
proof -
  have a: "js_le (Finite 0) PlusInfinity" by (simp add: js_le_def)
  have t0: "total PlusInfinity 0 = NaN" by code_simp
  have t1: "total PlusInfinity 1 = PlusInfinity" by code_simp
  have p: "pageTotal scenarioInfinitePrice = Some NaN"
    using t0 by (simp add: pageTotal_def scenarioInfinitePrice_def)
  from a t0 t1 p show ?thesis by (simp add: js_le_def)
qed

text \<open>
  C5. The breakdown is computed by the stated formulas, each product and sum being the
  binary64 operation. Only the total is rounded: whenever the sum of subtotal, fee and tax
  is a finite \<open>x\<close>, the total is the integer \<open>k\<close> with \<open>x - 1/2 < k \<le> x + 1/2\<close>, the nearest
  one with a tie going up, while fee and tax keep their fractions. For a base price of
  100000 and two hours: subtotal 200000, platform fee 60000, tax 28600, total 288600. For
  a base price of 500 and one hour the tax is 71.5 and the sum 721.5, rounded to 722; for
  \<open>-500\<close> the sum \<open>-721.5\<close> is rounded to \<open>-721\<close>; for a base price of 1 the sum 1.443
  (as binary64) is rounded to 1.
\<close>

theorem price_breakdown_formulas:
  "subtotal basePrice hourCount = js_mul basePrice (Finite (of_nat hourCount))
   \<and> platformFee basePrice hourCount
       = js_mul (subtotal basePrice hourCount) (toNumber (3 / 10))
   \<and> tax basePrice hourCount
       = js_mul (js_add (subtotal basePrice hourCount) (platformFee basePrice hourCount))
           (toNumber (11 / 100))
   \<and> total basePrice hourCount
       = Math_round (js_add (js_add (subtotal basePrice hourCount) (platformFee basePrice hourCount))
           (tax basePrice hourCount))
   \<and> (js_add (js_add (subtotal basePrice hourCount) (platformFee basePrice hourCount))
           (tax basePrice hourCount) = Finite x
        \<longrightarrow> (\<exists>k :: int. total basePrice hourCount = Finite (of_int k)
                   \<and> x - 1 / 2 < of_int k \<and> of_int k \<le> x + 1 / 2))
   \<and> subtotal (Finite 100000) 2 = Finite 200000
   \<and> platformFee (Finite 100000) 2 = Finite 60000
   \<and> tax (Finite 100000) 2 = Finite 28600
   \<and> total (Finite 100000) 2 = Finite 288600
   \<and> platformFee (Finite 5) 1 = Finite (3 / 2)
   \<and> tax (Finite 500) 1 = Finite (143 / 2)
   \<and> total (Finite 500) 1 = Finite 722
   \<and> total (Finite (- 500)) 1 = Finite (- 721)
   \<and> total (Finite 1) 1 = Finite 1"
proof -
  let ?sum = "js_add (js_add (subtotal basePrice hourCount) (platformFee basePrice hourCount))
                (tax basePrice hourCount)"
  have formulas: "subtotal basePrice hourCount = js_mul basePrice (Finite (of_nat hourCount))
   \<and> platformFee basePrice hourCount
       = js_mul (subtotal basePrice hourCount) (toNumber (3 / 10))
   \<and> tax basePrice hourCount
       = js_mul (js_add (subtotal basePrice hourCount) (platformFee basePrice hourCount))
           (toNumber (11 / 100))
   \<and> total basePrice hourCount = Math_round ?sum"
    by (simp add: subtotal_def platformFee_def tax_def total_def subtotalWithPlatformFee_def)
  have nearest: "?sum = Finite x
        \<longrightarrow> (\<exists>k :: int. total basePrice hourCount = Finite (of_int k)
                   \<and> x - 1 / 2 < of_int k \<and> of_int k \<le> x + 1 / 2)"
  proof
    assume fin: "?sum = Finite x"
    let ?k = "\<lfloor>x + 1 / 2\<rfloor>"
    have "total basePrice hourCount = Finite (of_int ?k)"
      using formulas fin by (simp add: Math_round_def)
    moreover have "x - 1 / 2 < of_int ?k" by linarith
    moreover have "of_int ?k \<le> x + 1 / 2" by simp
    ultimately show "\<exists>k :: int. total basePrice hourCount = Finite (of_int k)
                   \<and> x - 1 / 2 < of_int k \<and> of_int k \<le> x + 1 / 2"
      by blast
  qed
  have s: "subtotal (Finite 100000) 2 = Finite 200000" by (rule breakdown_100000_2)
  have f: "platformFee (Finite 100000) 2 = Finite 60000" by (rule breakdown_100000_2)
  have t: "tax (Finite 100000) 2 = Finite 28600" by (rule breakdown_100000_2)
  have g: "total (Finite 100000) 2 = Finite 288600" by (rule breakdown_100000_2)
  have h: "platformFee (Finite 5) 1 = Finite (3 / 2)" by (rule fee_of_5)
  have t5: "tax (Finite 500) 1 = Finite (143 / 2)" by (rule breakdown_500)
  have g5: "total (Finite 500) 1 = Finite 722" by (rule breakdown_500)
  have gm: "total (Finite (- 500)) 1 = Finite (- 721)" by (rule breakdown_minus_500)
  have g1: "total (Finite 1) 1 = Finite 1" by (rule breakdown_1)
  from formulas nearest s f t g h t5 g5 gm g1 show ?thesis by blast
qed

theorem price_breakdown_formulas_witness:
  "js_add (js_add (subtotal (Finite 500) 1) (platformFee (Finite 500) 1)) (tax (Finite 500) 1)
     = Finite (1443 / 2)
   \<and> total (Finite 500) 1 = Finite 722"
proof -
  have sum: "js_add (js_add (subtotal (Finite 500) 1) (platformFee (Finite 500) 1))
               (tax (Finite 500) 1) = Finite (1443 / 2)"
    using breakdown_500(5) by (simp only: subtotalWithPlatformFee_def)
  from price_breakdown_formulas [of "Finite 500" 1 "1443 / 2"] sum
  obtain k :: int where k: "total (Finite 500) 1 = Finite (of_int k)"
      "(1443 / 2 :: rat) - 1 / 2 < of_int k" "(of_int k :: rat) \<le> 1443 / 2 + 1 / 2"
    by blast
  from k(2) have "(721 :: rat) < of_int k" by simp
  then have "(of_int 721 :: rat) < of_int k" by simp
  then have lo: "721 < k" by (simp only: of_int_less_iff)
  from k(3) have "(of_int k :: rat) \<le> of_int 722" by simp
  then have hi: "k \<le> 722" by (simp only: of_int_le_iff)
  from lo hi have "k = 722" by linarith
  with k(1) sum show ?thesis by simp
qed

section \<open>The payment-success handler\<close>

text \<open>
  C8. When the second dash-separated segment of the order id has no leading number, the
  handler throws \<^verbatim>\<open>Error('Invalid booking ID format')\<close> before it touches the store: the
  notifications and the bookings (hence every status) are as before, there is no
  navigation, and the one new toast is the contact-support notice.
\<close>

theorem malformed_order_id_aborts_before_writes:
  assumes "order_id result = Some oid"
    and "parseInt10 (part1 (split (CHR ''-'') oid)) = None"
  shows "paymentSuccessBody env result w = (Inl (Error ''Invalid booking ID format''), w)
       \<and> notificationsTable (handlePaymentSuccess env result w) = notificationsTable w
       \<and> bookingsTable (handlePaymentSuccess env result w) = bookingsTable w
       \<and> route (handlePaymentSuccess env result w) = route w
       \<and> toasts (handlePaymentSuccess env result w)
           = toasts w @ [ToastError
               ''Payment successful but encountered an error. Please contact support.'']"
proof -
  have body: "paymentSuccessBody env result w = (Inl (Error ''Invalid booking ID format''), w)"
    using assms by (simp add: paymentSuccessBody_def)
  then show ?thesis
    by (simp add: handlePaymentSuccess_def)
qed

theorem malformed_order_id_aborts_before_writes_witness:
  "paymentSuccessBody exampleStore malformedResult exampleWorld
     = (Inl (Error ''Invalid booking ID format''), exampleWorld)
   \<and> notificationsTable (handlePaymentSuccess exampleStore malformedResult exampleWorld) = []
   \<and> bookingsTable (handlePaymentSuccess exampleStore malformedResult exampleWorld)
       = bookingsTable exampleWorld
   \<and> route (handlePaymentSuccess exampleStore malformedResult exampleWorld) = None
   \<and> toasts (handlePaymentSuccess exampleStore malformedResult exampleWorld)
       = [ToastError ''Payment successful but encountered an error. Please contact support.'']
   \<and> toasts (handlePaymentSuccess exampleStore wellFormedResult exampleWorld)
       = [ToastSuccess ''Payment successful! Booking request has been sent.'']"
proof -
  have h1: "order_id malformedResult = Some ''booking_7_1705287600''"
    by (simp add: malformedResult_def)
  have h2: "parseInt10 (part1 (split (CHR ''-'') ''booking_7_1705287600'')) = None"
    by code_simp
  have ok: "toasts (handlePaymentSuccess exampleStore wellFormedResult exampleWorld)
       = [ToastSuccess ''Payment successful! Booking request has been sent.'']"
    by code_simp
  from malformed_order_id_aborts_before_writes [OF h1 h2, of exampleStore exampleWorld] ok
  show ?thesis
    by (simp add: exampleWorld_def)
qed

end
